theory Spec2Isabelle
  imports Complex_Main "HOL-Library.AList"
begin

section \<open>Data model\<close>

text \<open>
  Exceptions of the Python sources, as values. \<open>KeyError\<close> is what
  \<open>Signal.convert_units\<close> raises for an unregistered conversion,
  \<open>ValueError\<close> is what \<open>sync_error\<close> raises for a time shift that is too
  large, \<open>TimeShiftError\<close> comes from \<open>bdpexceptions\<close>. The sources define no
  exception for a missing calibration record.
\<close>

datatype py_error =
    KeyError
  | ValueError
  | IndexError
  | TypeError
  | AttributeError
  | StandardError
  | UnboundLocalError
  | TimeShiftError
  | Warning

text \<open>
  A \<open>Signal\<close> is an \<open>ndarray\<close> subclass carrying five attributes. Binary
  arithmetic goes through \<open>__array_wrap__\<close>, which sets \<open>name\<close>, \<open>source\<close> and
  \<open>units\<close> to \<open>None\<close>; hence these three are optional. Samples are
  modelled as real numbers.
\<close>

record metadata =
  name :: "string option"
  runid :: string
  sampleRate :: real
  source :: "string option"
  units :: "string option"

record signal = metadata +
  samples :: "real list"

definition as_dictionary :: "signal \<Rightarrow> metadata" where
  "as_dictionary self =
     \<lparr>name = name self, runid = runid self, sampleRate = sampleRate self,
      source = source self, units = units self\<rparr>"

text \<open>\<open>Signal.__new__\<close> for a one-dimensional input array.\<close>

definition Signal :: "real list \<Rightarrow> metadata \<Rightarrow> signal" where
  "Signal inputArray md =
     \<lparr>name = name md, runid = runid md, sampleRate = sampleRate md,
      source = source md, units = units md, samples = inputArray\<rparr>"

text \<open>
  \<open>__array_finalize__\<close> copies the attributes of the operand and
  \<open>__array_wrap__\<close> then clears three of them.
\<close>

definition array_wrap :: "signal \<Rightarrow> real list \<Rightarrow> signal" where
  "array_wrap self outputArray =
     self\<lparr>name := None, source := None, units := None, samples := outputArray\<rparr>"

section \<open>Unit conversion\<close>

text \<open>The class attribute \<open>Signal.conversions\<close>, a dictionary keyed by strings.\<close>

definition conversions :: "(string \<times> real) list" where
  "conversions =
     [(''degree->radian'', pi / 180),
      (''degree/second->radian/second'', pi / 180),
      (''degree/second/second->radian/second/second'', pi / 180),
      (''inch*pound->newton*meter'', 25.4 / 1000 * 4.44822162),
      (''pound->newton'', 4.44822162),
      (''feet/second->meter/second'', 12 * 2.54 / 100),
      (''mile/hour->meter/second'', 0.00254 * 12 / 5280 / 3600)]"

text \<open>
  \<open>Signal.convert_units\<close> of \<open>bicycledataprocessor/main.py\<close>. Concatenating
  \<open>None\<close> with a string raises \<open>TypeError\<close>, which the \<open>except KeyError\<close>
  clauses do not catch.
\<close>

definition convert_units :: "signal \<Rightarrow> string \<Rightarrow> py_error + signal" where
  "convert_units self u =
     (if Some u = units self then Inr self
      else
        (case units self of
           None \<Rightarrow> Inl TypeError
         | Some su \<Rightarrow>
             (case map_of conversions (su @ ''->'' @ u) of
                Some c \<Rightarrow>
                  Inr ((Signal (samples (array_wrap self (map (\<lambda>x. x * c) (samples self))))
                          (as_dictionary self))\<lparr>units := Some u\<rparr>)
              | None \<Rightarrow>
                  (case map_of conversions (u @ ''->'' @ su) of
                     Some c \<Rightarrow>
                       Inr ((Signal (samples (array_wrap self (map (\<lambda>x. x / c) (samples self))))
                               (as_dictionary self))\<lparr>units := Some u\<rparr>)
                   | None \<Rightarrow> Inl KeyError))))"

text \<open>
  \<open>Signal.convert_units\<close> of \<open>DataProcessor.py\<close>: no test for equal units, and
  the product is returned as it comes out of \<open>__array_wrap__\<close>, with only the units set.
\<close>

definition convert_units_dp :: "signal \<Rightarrow> string \<Rightarrow> py_error + signal" where
  "convert_units_dp self u =
     (case units self of
        None \<Rightarrow> Inl TypeError
      | Some su \<Rightarrow>
          (case map_of conversions (su @ ''->'' @ u) of
             Some c \<Rightarrow> Inr ((array_wrap self (map (\<lambda>x. x * c) (samples self)))\<lparr>units := Some u\<rparr>)
           | None \<Rightarrow>
               (case map_of conversions (u @ ''->'' @ su) of
                  Some c \<Rightarrow>
                    Inr ((array_wrap self (map (\<lambda>x. x / c) (samples self)))\<lparr>units := Some u\<rparr>)
                | None \<Rightarrow> Inl KeyError)))"


section \<open>Array helpers\<close>

text \<open>
  \<open>np.nonzero(mask)[0]\<close>: the positions at which a boolean array is true, in
  increasing order.
\<close>

definition nonzero :: "bool list \<Rightarrow> nat list" where
  "nonzero bs = filter (\<lambda>i. bs ! i) [0..<length bs]"

text \<open>
  \<open>a[idx]\<close> for an integer index array: \<open>IndexError\<close> when an index is out of
  bounds.
\<close>

definition take_indices :: "'a list \<Rightarrow> nat list \<Rightarrow> py_error + 'a list" where
  "take_indices a idx =
     (if list_all (\<lambda>i. i < length a) idx then Inr (map (\<lambda>i. a ! i) idx) else Inl IndexError)"

text \<open>\<open>a[i:j]\<close> for non-negative \<open>i\<close> and \<open>j\<close>.\<close>

definition slice :: "'a list \<Rightarrow> nat \<Rightarrow> nat \<Rightarrow> 'a list" where
  "slice a i j = take (j - i) (drop i a)"

text \<open>
  Element-wise binary operations of two one-dimensional arrays, with numpy's
  broadcasting of an array of length one; other length mismatches raise
  \<open>ValueError\<close>.
\<close>

definition broadcast :: "(real \<Rightarrow> real \<Rightarrow> real) \<Rightarrow> real list \<Rightarrow> real list \<Rightarrow> py_error + real list"
  where
  "broadcast f xs ys =
     (if length xs = length ys then Inr (map2 f xs ys)
      else if length xs = 1 then Inr (map (f (hd xs)) ys)
      else if length ys = 1 then Inr (map (\<lambda>x. f x (hd ys)) xs)
      else Inl ValueError)"

text \<open>
  Modelled from the spec: \<open>time_vector\<close> (module \<open>signalprocessing\<close> /
  \<open>dtk.process\<close>) is not among the source files. Section 4.1 of the specification
  gives the time stamps of \<open>n\<close> samples at rate \<open>r\<close> as \<open>t_i = i / r\<close>.
\<close>

definition time_vector :: "nat \<Rightarrow> real \<Rightarrow> real list" where
  "time_vector numSamples rate = map (\<lambda>i. real i / rate) [0..<numSamples]"

definition time :: "signal \<Rightarrow> real list" where
  "time self = time_vector (length (samples self)) (sampleRate self)"

text \<open>
  \<open>np.interp(x, xp, fp)\<close>, piecewise linear interpolation over increasing sample
  points \<open>xp\<close>: values left of \<open>xp[0]\<close> give \<open>fp[0]\<close>, values right of
  \<open>xp[-1]\<close> give \<open>fp[-1]\<close>. \<open>interp_from x0 y0 xs ys x\<close> walks the remaining
  sample points for an \<open>x\<close> that is not left of \<open>x0\<close>.
\<close>

fun interp_from :: "real \<Rightarrow> real \<Rightarrow> real list \<Rightarrow> real list \<Rightarrow> real \<Rightarrow> real" where
  "interp_from x0 y0 (x1 # xs) (y1 # ys) x =
     (if x < x1 then (y1 - y0) / (x1 - x0) * (x - x0) + y0 else interp_from x1 y1 xs ys x)"
| "interp_from x0 y0 _ _ x = y0"

fun interp1 :: "real list \<Rightarrow> real list \<Rightarrow> real \<Rightarrow> real" where
  "interp1 (x0 # xs) (y0 # ys) x = (if x \<le> x0 then y0 else interp_from x0 y0 xs ys x)"
| "interp1 _ _ x = 0"

definition interp :: "real list \<Rightarrow> real list \<Rightarrow> real list \<Rightarrow> py_error + real list" where
  "interp x xp fp =
     (if xp = [] \<or> length xp \<noteq> length fp then Inl ValueError
      else Inr (map (interp1 xp fp) x))"

section \<open>Truncation\<close>

text \<open>
  \<open>truncate_data\<close> of \<open>DataProcessor.py\<close>. \<open>tni[-1]\<close> and \<open>tcom[-1]\<close> raise
  \<open>IndexError\<close> on an empty array. Indexing the signal with the index array
  keeps its attributes.
\<close>

definition truncate_data :: "signal \<Rightarrow> real \<Rightarrow> py_error + signal" where
  "truncate_data sig tau' =
     (let t = time_vector (length (samples sig)) (sampleRate sig);
          tni = map (\<lambda>x. x - tau') t;
          tvn = t
      in if tni = [] then Inl IndexError
         else
           (case take_indices tvn (nonzero (map (\<lambda>x. x < last tni) tvn)) of
              Inl e \<Rightarrow> Inl e
            | Inr tcom \<Rightarrow>
                if source sig = Some ''NI'' then
                  (case interp tcom tni (samples sig) of
                     Inl e \<Rightarrow> Inl e
                   | Inr truncated \<Rightarrow> Inr (Signal truncated (as_dictionary sig)))
                else if source sig = Some ''VN'' then
                  (if tcom = [] then Inl IndexError
                   else
                     (case take_indices (samples sig) (nonzero (map (\<lambda>x. x \<le> last tcom) tvn)) of
                        Inl e \<Rightarrow> Inl e
                      | Inr truncated \<Rightarrow> Inr (sig\<lparr>samples := truncated\<rparr>)))
                else Inl ValueError))"

text \<open>
  \<open>Signal.truncate\<close> of \<open>bicycledataprocessor/main.py\<close> wraps the result in a new
  \<open>Signal\<close> with the attributes of the original.
\<close>

definition Signal_truncate :: "signal \<Rightarrow> real \<Rightarrow> py_error + signal" where
  "Signal_truncate self tau' =
     (case truncate_data self tau' of
        Inl e \<Rightarrow> Inl e
      | Inr truncated \<Rightarrow> Inr (Signal (samples truncated) (as_dictionary self)))"

section \<open>Synchronisation error\<close>

text \<open>\<open>np.linalg.norm\<close> of a one-dimensional array.\<close>

definition norm2 :: "real list \<Rightarrow> real" where
  "norm2 v = sqrt (sum_list (map (\<lambda>x. x ^ 2) v))"

text \<open>\<open>sync_error\<close> of \<open>DataProcessor.py\<close>.\<close>

definition sync_error :: "real \<Rightarrow> real list \<Rightarrow> real list \<Rightarrow> real list \<Rightarrow> py_error + real" where
  "sync_error tau' signal1 signal2 time' =
     (if time' = [] then Inl IndexError
      else if \<bar>tau'\<bar> \<ge> last time' then Inl ValueError
      else
        (let shiftedTime = map (\<lambda>t. t + tau') time' in
         case take_indices shiftedTime
                (if tau' > 0 then nonzero (map (\<lambda>s. s < last time') shiftedTime)
                 else nonzero (map (\<lambda>s. s > hd time') shiftedTime)) of
           Inl e \<Rightarrow> Inl e
         | Inr intervalTime \<Rightarrow>
             (case interp intervalTime time' signal1 of
                Inl e \<Rightarrow> Inl e
              | Inr sig1OnInterval \<Rightarrow>
                  if intervalTime = [] then Inl IndexError
                  else
                    (case take_indices signal2
                            (if tau' > 0
                             then nonzero (map (\<lambda>s. s \<le> last intervalTime) shiftedTime)
                             else nonzero (map (\<lambda>s. s \<ge> hd intervalTime) shiftedTime)) of
                       Inl e \<Rightarrow> Inl e
                     | Inr sig2OnInterval \<Rightarrow>
                         (case broadcast (-) sig1OnInterval sig2OnInterval of
                            Inl e \<Rightarrow> Inl e
                          | Inr d \<Rightarrow> Inr (norm2 d))))))"


section \<open>Splitting around NaN\<close>

text \<open>Array entries that may be \<open>nan\<close>.\<close>

datatype npfloat = Num real | NaN

fun isnan :: "npfloat \<Rightarrow> bool" where
  "isnan NaN = True"
| "isnan (Num x) = False"

text \<open>
  \<open>np.split(ary, indices)\<close> for an index array: the slices between consecutive
  division points \<open>[0] + indices + [len(ary)]\<close>.
\<close>

fun sub_arys :: "nat list \<Rightarrow> 'a list \<Rightarrow> 'a list list" where
  "sub_arys (st # en # div_points) ary = slice ary st en # sub_arys (en # div_points) ary"
| "sub_arys _ ary = []"

definition np_split :: "'a list \<Rightarrow> nat list \<Rightarrow> 'a list list" where
  "np_split ary indices = sub_arys (0 # indices @ [length ary]) ary"

text \<open>The loop over \<open>firstSplit\<close> that splits again behind every \<open>nan\<close>.\<close>

fun split_again :: "npfloat list list \<Rightarrow> npfloat list list \<Rightarrow> npfloat list list" where
  "split_again arrays [] = arrays"
| "split_again arrays (arr # firstSplit) =
     split_again
       (if list_ex isnan arr
        then arrays @ np_split arr (map (\<lambda>i. i + 1) (nonzero (map isnan arr)))
        else arrays @ [arr])
       firstSplit"

text \<open>
  The loop that builds the index pairs. Every array it sees is non-empty, so
  \<open>count - 1\<close> and \<open>count - len(arr)\<close> are never negative.
\<close>

fun build_indices :: "nat \<Rightarrow> (nat \<times> nat) list \<Rightarrow> npfloat list list \<Rightarrow> (nat \<times> nat) list" where
  "build_indices count indices [] = indices"
| "build_indices count indices (arr # arrays) =
     build_indices (count + length arr)
       (if list_ex isnan arr
        then indices @ [(count + length arr - 1, count + length arr)]
        else indices @ [(count + length arr - length arr, count + length arr)])
       arrays"

definition split_around_nan :: "npfloat list \<Rightarrow> (nat \<times> nat) list \<times> npfloat list list" where
  "split_around_nan sig =
     (if list_ex isnan sig then
        (let firstSplit = np_split sig (nonzero (map isnan sig));
             arrays = split_again [] firstSplit;
             emptys = filter (\<lambda>i. length (arrays ! i) = 0) [0..<length arrays];
             arrays = map (\<lambda>i. arrays ! i) (filter (\<lambda>i. i \<notin> set emptys) [0..<length arrays])
         in (build_indices 0 [] arrays, arrays))
      else ([(0, length sig)], [sig]))"

section \<open>Calibration store\<close>

text \<open>
  A row of the calibration table, as \<open>Sensor._store_calibration_data\<close> copies
  it. The columns \<open>name\<close>, \<open>signal\<close>, \<open>units\<close> and \<open>timeStamp\<close> carry the
  prefix \<open>cal_\<close> here. \<open>timeStamp\<close> is the string that
  \<open>matlab_date_to_object\<close> parses.
\<close>

record calibration =
  calibrationID :: string
  cal_name :: string
  cal_signal :: string
  cal_units :: string
  cal_timeStamp :: string
  slope :: real
  bias :: real
  offset :: real
  calibrationSupplyVoltage :: real

text \<open>
  \<open>Sensor.data\<close> is a dictionary from calibration id to row; it is kept as the
  list of its items in iteration order. The constructor raises \<open>KeyError\<close> when it
  would be empty.
\<close>

record sensor =
  sensor_name :: string
  data :: "(string \<times> calibration) list"

text \<open>
  The list comprehension of \<open>get_data_for_date\<close>. \<open>matlab_date_to_object\<close> is
  \<open>datetime.strptime\<close>, a parameter here: it gives a value of a linearly
  ordered type of dates, or fails with \<open>ValueError\<close>.
\<close>

fun dateIdPairs :: "(string \<Rightarrow> 'd option) \<Rightarrow> (string \<times> calibration) list \<Rightarrow> py_error + (string \<times> 'd) list"
  where
  "dateIdPairs matlab_date_to_object [] = Inr []"
| "dateIdPairs matlab_date_to_object ((k, v) # items) =
     (case matlab_date_to_object (cal_timeStamp v) of
        None \<Rightarrow> Inl ValueError
      | Some d \<Rightarrow>
          (case dateIdPairs matlab_date_to_object items of
             Inl e \<Rightarrow> Inl e
           | Inr pairs \<Rightarrow> Inr ((k, d) # pairs)))"

text \<open>
  \<open>list.sort(key=..., reverse=True)\<close>: a stable sort into descending order, which
  Python performs by reversing, sorting stably and reversing again.
\<close>

definition sort_reverse :: "(string \<times> 'd::linorder) list \<Rightarrow> (string \<times> 'd) list" where
  "sort_reverse pairs = rev (sort_key snd (rev pairs))"

text \<open>
  The \<open>for\<close> loop with its \<open>break\<close>: the value of \<open>i\<close> afterwards, or
  \<open>None\<close> when the loop body never ran and \<open>i\<close> is unbound.
\<close>

fun for_break :: "'d::linorder \<Rightarrow> (nat \<times> string \<times> 'd) list \<Rightarrow> nat option \<Rightarrow> nat option" where
  "for_break runDate [] i = i"
| "for_break runDate ((j, pair) # rest) i =
     (if runDate \<ge> snd pair then Some j else for_break runDate rest (Some j))"

definition get_data_for_date ::
  "(string \<Rightarrow> 'd::linorder option) \<Rightarrow> sensor \<Rightarrow> 'd \<Rightarrow> py_error + calibration" where
  "get_data_for_date matlab_date_to_object self runDate =
     (case dateIdPairs matlab_date_to_object (data self) of
        Inl e \<Rightarrow> Inl e
      | Inr pairs \<Rightarrow>
          (let pairs = sort_reverse pairs in
           case for_break runDate (enumerate 0 pairs) None of
             None \<Rightarrow> Inl UnboundLocalError
           | Some i \<Rightarrow>
               (case map_of (data self) (fst (pairs ! i)) of
                  None \<Rightarrow> Inl KeyError
                | Some row \<Rightarrow> Inr row)))"


section \<open>Scaling raw signals\<close>

text \<open>
  Operands of the calibration equations: a float or a one-dimensional array. The
  supply voltage of a raw signal is either (\<open>runSupplyVoltage\<close>, or the samples of
  the channel named by \<open>runSupplyVoltageSource\<close>).
\<close>

datatype npval = Scalar real | Array "real list"

fun np_op :: "(real \<Rightarrow> real \<Rightarrow> real) \<Rightarrow> npval \<Rightarrow> npval \<Rightarrow> py_error + npval" where
  "np_op f (Scalar x) (Scalar y) = Inr (Scalar (f x y))"
| "np_op f (Scalar x) (Array ys) = Inr (Array (map (f x) ys))"
| "np_op f (Array xs) (Scalar y) = Inr (Array (map (\<lambda>x. f x y) xs))"
| "np_op f (Array xs) (Array ys) =
     (case broadcast f xs ys of Inl e \<Rightarrow> Inl e | Inr zs \<Rightarrow> Inr (Array zs))"

fun has_zero :: "npval \<Rightarrow> bool" where
  "has_zero (Scalar x) = (x = 0)"
| "has_zero (Array xs) = list_ex (\<lambda>x. x = 0) xs"

text \<open>
  Division of numpy floats by zero does not raise: it yields \<open>inf\<close> or \<open>nan\<close>.
  Real-valued samples cannot hold these, so the model stops with \<open>NonFinite\<close>,
  which stands for no Python exception.
\<close>

datatype 'a outcome = Raises py_error | NonFinite | Returns 'a

definition bind :: "'a outcome \<Rightarrow> ('a \<Rightarrow> 'b outcome) \<Rightarrow> 'b outcome" where
  "bind m f = (case m of Raises e \<Rightarrow> Raises e | NonFinite \<Rightarrow> NonFinite | Returns x \<Rightarrow> f x)"

definition lift :: "py_error + 'a \<Rightarrow> 'a outcome" where
  "lift r = (case r of Inl e \<Rightarrow> Raises e | Inr x \<Rightarrow> Returns x)"

definition np_div :: "npval \<Rightarrow> npval \<Rightarrow> npval outcome" where
  "np_div a b = (if has_zero b then NonFinite else lift (np_op (/) a b))"

record 'd rawsignal = signal +
  calibrationType :: string
  sensor :: "sensor option"
  supply_voltage :: "npval option"
  timeStamp :: 'd

definition doNotScale :: "string list" where
  "doNotScale = [''LeanPotentiometer'', ''HipPotentiometer'', ''TwistPotentiometer'']"

text \<open>
  The attribute \<open>supply\<close> is the field \<open>supply_voltage\<close>, absent when the
  calibration table has no row for the signal.

  The last lines of \<open>RawSignal.scale\<close>: name and units from the calibration row,
  source from the raw signal, then \<open>view(Signal)\<close>. A numpy float has no
  attributes to set.
\<close>

definition calibrated :: "'d rawsignal \<Rightarrow> calibration \<Rightarrow> npval \<Rightarrow> signal outcome" where
  "calibrated self calibData calibratedSignal =
     (case calibratedSignal of
        Scalar x \<Rightarrow> Raises AttributeError
      | Array xs \<Rightarrow>
          Returns \<lparr>name = Some (cal_signal calibData), runid = runid self,
                   sampleRate = sampleRate self, source = source self,
                   units = Some (cal_units calibData), samples = xs\<rparr>)"

definition supply_of :: "'d rawsignal \<Rightarrow> npval outcome" where
  "supply_of self = (case supply_voltage self of None \<Rightarrow> Raises AttributeError | Some v \<Rightarrow> Returns v)"

text \<open>\<open>RawSignal.scale\<close> of \<open>bicycledataprocessor/main.py\<close>.\<close>

definition scale :: "(string \<Rightarrow> 'd::linorder option) \<Rightarrow> 'd rawsignal \<Rightarrow> signal outcome" where
  "scale matlab_date_to_object self =
     (if calibrationType self \<in> set [''none'', ''matrix''] \<or> name self \<in> Some ` set doNotScale
      then Returns (signal.truncate self)
      else
        (case sensor self of
           None \<Rightarrow> Raises AttributeError
         | Some sens \<Rightarrow>
             bind (lift (get_data_for_date matlab_date_to_object sens (timeStamp self)))
               (\<lambda>calibData.
                  let slope' = Scalar (slope calibData);
                      bias' = Scalar (bias calibData);
                      intercept = Scalar (offset calibData);
                      calibrationSupplyVoltage' = Scalar (calibrationSupplyVoltage calibData);
                      self' = Array (samples self)
                  in
                    if calibrationType self = ''interceptStar'' then
                      bind (supply_of self) (\<lambda>sv.
                      bind (np_div calibrationSupplyVoltage' sv) (\<lambda>a.
                      bind (lift (np_op (*) a slope')) (\<lambda>b.
                      bind (lift (np_op (*) b self')) (\<lambda>c.
                      bind (lift (np_op (+) c intercept)) (calibrated self calibData)))))
                    else if calibrationType self = ''intercept'' then
                      bind (supply_of self) (\<lambda>sv.
                      bind (np_div calibrationSupplyVoltage' sv) (\<lambda>a.
                      bind (lift (np_op (*) slope' self')) (\<lambda>b.
                      bind (lift (np_op (+) b intercept)) (\<lambda>c.
                      bind (lift (np_op (*) a c)) (calibrated self calibData)))))
                    else if calibrationType self = ''bias'' then
                      bind (supply_of self) (\<lambda>sv.
                      bind (np_div sv calibrationSupplyVoltage') (\<lambda>a.
                      bind (lift (np_op (*) a bias')) (\<lambda>b.
                      bind (lift (np_op (-) self' b)) (\<lambda>c.
                      bind (lift (np_op (*) slope' c)) (calibrated self calibData)))))
                    else Raises StandardError)))"

text \<open>
  \<open>RawSignal.scale\<close> of \<open>DataProcessor.py\<close>: the same but for the \<open>bias\<close>
  equation.
\<close>

definition scale_dp :: "(string \<Rightarrow> 'd::linorder option) \<Rightarrow> 'd rawsignal \<Rightarrow> signal outcome" where
  "scale_dp matlab_date_to_object self =
     (if calibrationType self \<in> set [''none'', ''matrix''] \<or> name self \<in> Some ` set doNotScale
      then Returns (signal.truncate self)
      else
        (case sensor self of
           None \<Rightarrow> Raises AttributeError
         | Some sens \<Rightarrow>
             bind (lift (get_data_for_date matlab_date_to_object sens (timeStamp self)))
               (\<lambda>calibData.
                  let slope' = Scalar (slope calibData);
                      bias' = Scalar (bias calibData);
                      intercept = Scalar (offset calibData);
                      calibrationSupplyVoltage' = Scalar (calibrationSupplyVoltage calibData);
                      self' = Array (samples self)
                  in
                    if calibrationType self = ''interceptStar'' then
                      bind (supply_of self) (\<lambda>sv.
                      bind (np_div calibrationSupplyVoltage' sv) (\<lambda>a.
                      bind (lift (np_op (*) a slope')) (\<lambda>b.
                      bind (lift (np_op (*) b self')) (\<lambda>c.
                      bind (lift (np_op (+) c intercept)) (calibrated self calibData)))))
                    else if calibrationType self = ''intercept'' then
                      bind (supply_of self) (\<lambda>sv.
                      bind (np_div calibrationSupplyVoltage' sv) (\<lambda>a.
                      bind (lift (np_op (*) slope' self')) (\<lambda>b.
                      bind (lift (np_op (+) b intercept)) (\<lambda>c.
                      bind (lift (np_op (*) a c)) (calibrated self calibData)))))
                    else if calibrationType self = ''bias'' then
                      bind (supply_of self) (\<lambda>sv.
                      bind (np_div calibrationSupplyVoltage' sv) (\<lambda>a.
                      bind (lift (np_op (*) a slope')) (\<lambda>b.
                      bind (lift (np_op (-) self' bias')) (\<lambda>c.
                      bind (lift (np_op (*) b c)) (calibrated self calibData)))))
                    else Raises StandardError)))"


section \<open>Runs\<close>

text \<open>
  The attributes of a \<open>Run\<close> that \<open>process_raw_signals\<close> and
  \<open>check_time_shift\<close> read or write. An attribute that has not been assigned is
  \<open>None\<close>. \<open>Maneuver\<close> is \<open>metadata['Maneuver']\<close>; \<open>rawSignals\<close> lists the
  values of the dictionary in iteration order; the other dictionaries are lists of
  their items, with distinct keys.
\<close>

record 'd run =
  Maneuver :: string
  filterFreq :: "real option"
  rawSignals :: "'d rawsignal list"
  calibratedSignals :: "(string option \<times> signal) list option"
  truncatedSignals :: "(string option \<times> signal) list option"
  computedSignals :: "(string option \<times> signal) list option"
  taskSignals :: "(string option \<times> signal) list option"
  tau :: "real option"
  topSig :: "string option"

text \<open>
  The numerical routines of other packages (\<open>dtk.process\<close>, \<open>scipy\<close>) and the
  stages whose bodies are not modelled are parameters: \<open>spline_over_nan\<close>,
  the \<open>filter\<close> method of a signal, and the methods \<open>compute_time_shift\<close>,
  \<open>compute_signals\<close> and \<open>task_signals\<close> of a run.
\<close>

record 'd externals =
  spline_over_nan :: "real list \<Rightarrow> real list \<Rightarrow> real list"
  signal_filter :: "signal \<Rightarrow> real \<Rightarrow> signal"
  compute_time_shift :: "'d run \<Rightarrow> py_error + 'd run"
  compute_signals :: "'d run \<Rightarrow> py_error + 'd run"
  task_signals :: "'d run \<Rightarrow> py_error + 'd run"

definition spline :: "'d externals \<Rightarrow> signal \<Rightarrow> signal" where
  "spline ext self = Signal (spline_over_nan ext (time self) (samples self)) (as_dictionary self)"

text \<open>
  \<open>Run.calibrate_signals\<close>. An outcome of \<open>scale\<close> that is not a signal ends
  the loop.
\<close>

fun calibrate_loop ::
  "(string \<Rightarrow> 'd::linorder option) \<Rightarrow> 'd rawsignal list \<Rightarrow> (string option \<times> signal) list \<Rightarrow>
   (string option \<times> signal) list outcome" where
  "calibrate_loop matlab_date_to_object [] calibratedSignals' = Returns calibratedSignals'"
| "calibrate_loop matlab_date_to_object (sig # sigs) calibratedSignals' =
     bind (scale matlab_date_to_object sig)
       (\<lambda>calibSig.
          calibrate_loop matlab_date_to_object sigs
            (AList.update (name calibSig) calibSig calibratedSignals'))"

definition calibrate_signals :: "(string \<Rightarrow> 'd::linorder option) \<Rightarrow> 'd run \<Rightarrow> 'd run outcome" where
  "calibrate_signals matlab_date_to_object self =
     bind (calibrate_loop matlab_date_to_object (rawSignals self) [])
       (\<lambda>m. Returns (self\<lparr>calibratedSignals := Some m, topSig := Some ''calibrated''\<rparr>))"

text \<open>\<open>Run.truncate_signals\<close>: every calibrated signal is truncated and splined.\<close>

fun truncate_loop ::
  "'d externals \<Rightarrow> real \<Rightarrow> (string option \<times> signal) list \<Rightarrow> (string option \<times> signal) list \<Rightarrow>
   py_error + (string option \<times> signal) list" where
  "truncate_loop ext tau' [] truncatedSignals' = Inr truncatedSignals'"
| "truncate_loop ext tau' ((name', sig) # items) truncatedSignals' =
     (case Signal_truncate sig tau' of
        Inl e \<Rightarrow> Inl e
      | Inr t \<Rightarrow> truncate_loop ext tau' items (AList.update name' (spline ext t) truncatedSignals'))"

definition truncate_signals :: "'d externals \<Rightarrow> 'd run \<Rightarrow> py_error + 'd run" where
  "truncate_signals ext self =
     (case calibratedSignals self of
        None \<Rightarrow> Inl AttributeError
      | Some cs \<Rightarrow>
          (case tau self of
             None \<Rightarrow> (if cs = [] then Inr (self\<lparr>truncatedSignals := Some [], topSig := Some ''truncated''\<rparr>)
                       else Inl AttributeError)
           | Some tau' \<Rightarrow>
               (case truncate_loop ext tau' cs [] of
                  Inl e \<Rightarrow> Inl e
                | Inr ts \<Rightarrow> Inr (self\<lparr>truncatedSignals := Some ts, topSig := Some ''truncated''\<rparr>))))"

text \<open>
  \<open>Run.check_time_shift\<close>. The mean of an empty array and a quotient \<open>0 / 0\<close>
  are \<open>nan\<close>, which exceeds nothing; a positive value divided by zero is \<open>inf\<close>,
  which exceeds every threshold. \<open>max\<close> of an empty array raises \<open>ValueError\<close>.
\<close>

definition np_max :: "real list \<Rightarrow> real" where
  "np_max xs = foldl max (hd xs) (tl xs)"

definition np_min :: "real list \<Rightarrow> real" where
  "np_min xs = foldl min (hd xs) (tl xs)"

definition np_mean :: "real list \<Rightarrow> real" where
  "np_mean xs = sum_list xs / real (length xs)"

definition lookup :: "(string option \<times> signal) list \<Rightarrow> string \<Rightarrow> py_error + signal" where
  "lookup d k = (case map_of d (Some k) of None \<Rightarrow> Inl KeyError | Some v \<Rightarrow> Inr v)"

definition nrms_exceeds :: "real list \<Rightarrow> real list \<Rightarrow> real \<Rightarrow> py_error + bool" where
  "nrms_exceeds vnAcc niAcc maxNRMS =
     (case broadcast (+) vnAcc niAcc of
        Inl e \<Rightarrow> Inl e
      | Inr s \<Rightarrow>
          if niAcc = [] then Inl ValueError
          else if s = [] then Inr False
          else
            (let rms = sqrt (np_mean (map (\<lambda>x. x ^ 2) s));
                 rng = np_max niAcc - np_min niAcc
             in if rng = 0 then Inr (rms > 0) else Inr (rms / rng > maxNRMS)))"

definition check_time_shift :: "'d externals \<Rightarrow> 'd run \<Rightarrow> real \<Rightarrow> py_error + 'd run" where
  "check_time_shift ext self maxNRMS =
     (case calibratedSignals self of
        None \<Rightarrow> Inl AttributeError
      | Some cs \<Rightarrow>
          (case lookup cs ''AccelerometerAccelerationY'' of
             Inl e \<Rightarrow> Inl e
           | Inr niAcc \<Rightarrow>
               (case lookup cs ''AccelerationZ'' of
                  Inl e \<Rightarrow> Inl e
                | Inr vnAcc \<Rightarrow>
                    (case tau self of
                       None \<Rightarrow> Inl AttributeError
                     | Some tau' \<Rightarrow>
                         (case Signal_truncate vnAcc tau' of
                            Inl e \<Rightarrow> Inl e
                          | Inr vnT \<Rightarrow>
                              (case Signal_truncate niAcc tau' of
                                 Inl e \<Rightarrow> Inl e
                               | Inr niT \<Rightarrow>
                                   (case nrms_exceeds (samples (spline ext vnT))
                                           (samples (spline ext niT)) maxNRMS of
                                      Inl e \<Rightarrow> Inl e
                                    | Inr exceeds \<Rightarrow>
                                        if exceeds then Inl TimeShiftError else Inr self)))))))"


text \<open>\<open>Run.filter_top_signals\<close>.\<close>

definition filter_values ::
  "'d externals \<Rightarrow> real \<Rightarrow> (string option \<times> signal) list option \<Rightarrow>
   py_error + (string option \<times> signal) list option" where
  "filter_values ext filterFreq' d =
     (case d of
        None \<Rightarrow> Inl AttributeError
      | Some items \<Rightarrow> Inr (Some (map (\<lambda>(k, v). (k, signal_filter ext v filterFreq')) items)))"

definition filter_top_signals :: "'d externals \<Rightarrow> 'd run \<Rightarrow> real \<Rightarrow> py_error + 'd run" where
  "filter_top_signals ext self filterFreq' =
     (if topSig self = None then Inl AttributeError
      else if topSig self = Some ''task'' then
        (case filter_values ext filterFreq' (taskSignals self) of
           Inl e \<Rightarrow> Inl e
         | Inr d \<Rightarrow> Inr (self\<lparr>taskSignals := d\<rparr>))
      else if topSig self = Some ''computed'' then
        (case filter_values ext filterFreq' (computedSignals self) of
           Inl e \<Rightarrow> Inl e
         | Inr d \<Rightarrow> Inr (self\<lparr>computedSignals := d\<rparr>))
      else if topSig self = Some ''calibrated'' then
        (case filter_values ext filterFreq' (calibratedSignals self) of
           Inl e \<Rightarrow> Inl e
         | Inr d \<Rightarrow> Inr (self\<lparr>calibratedSignals := d\<rparr>))
      else Inr self)"

text \<open>\<open>Run.process_raw_signals\<close>.\<close>

definition process_raw_signals ::
  "(string \<Rightarrow> 'd::linorder option) \<Rightarrow> 'd externals \<Rightarrow> 'd run \<Rightarrow> 'd run outcome" where
  "process_raw_signals matlab_date_to_object ext self =
     bind (calibrate_signals matlab_date_to_object self)
       (\<lambda>self.
          let maneuver = Maneuver self;
              con1 = (maneuver \<noteq> ''Steer Dynamics Test'');
              con2 = (maneuver \<noteq> ''System Test'');
              con3 = (maneuver \<noteq> ''Static Calibration'')
          in
            bind
              (if con1 \<and> con2 \<and> con3 then
                 bind (lift (compute_time_shift ext self)) (\<lambda>self.
                 bind (lift (check_time_shift ext self 0.15)) (\<lambda>self.
                 bind (lift (truncate_signals ext self)) (\<lambda>self.
                 bind (lift (compute_signals ext self)) (\<lambda>self.
                 lift (task_signals ext self)))))
               else Returns self)
              (\<lambda>self.
                 case filterFreq self of
                   None \<Rightarrow> Returns self
                 | Some f \<Rightarrow> lift (filter_top_signals ext self f)))"

section \<open>Time shift\<close>

text \<open>\<open>np.linspace(0., .5, num=500)\<close>.\<close>

definition tauRange :: "real list" where
  "tauRange = map (\<lambda>i. real i * (0.5 / 499)) [0..<500]"

text \<open>\<open>np.argmin\<close>: the first position of the least entry.\<close>

fun argmin_from :: "real list \<Rightarrow> nat \<Rightarrow> nat \<Rightarrow> real \<Rightarrow> nat" where
  "argmin_from [] i best least = best"
| "argmin_from (x # xs) i best least =
     (if x < least then argmin_from xs (Suc i) i x else argmin_from xs (Suc i) best least)"

definition argmin :: "real list \<Rightarrow> nat" where
  "argmin xs = argmin_from (tl xs) 1 0 (hd xs)"

text \<open>The loop filling the error landscape; an exception of \<open>sync_error\<close> ends it.\<close>

fun landscape :: "real list \<Rightarrow> real list \<Rightarrow> real list \<Rightarrow> real list \<Rightarrow> py_error + real list" where
  "landscape [] niBumpSec vnBumpSec timeBumpSec = Inr []"
| "landscape (val # vals) niBumpSec vnBumpSec timeBumpSec =
     (case sync_error val niBumpSec vnBumpSec timeBumpSec of
        Inl e \<Rightarrow> Inl e
      | Inr err \<Rightarrow>
          (case landscape vals niBumpSec vnBumpSec timeBumpSec of
             Inl e \<Rightarrow> Inl e
           | Inr errs \<Rightarrow> Inr (err # errs)))"

text \<open>The seed of the minimisation: the grid minimum, or the guess from the bumps.\<close>

definition seed :: "real \<Rightarrow> real list \<Rightarrow> real" where
  "seed guess error' =
     (let tau0 = tauRange ! argmin error';
          isInRange = (0 < guess \<and> guess < 1);
          isCloseToTau = (guess - 0.1 < tau0 \<and> tau0 < guess + 0.1)
      in if isInRange \<and> \<not> isCloseToTau then guess else tau0)"

text \<open>
  \<open>find_timeshift\<close> of \<open>DataProcessor.py\<close> from the test of the bump section's
  length on. What precedes it (filtering, the spline through the VN signal,
  \<open>find_bump\<close>, normalising) computes \<open>guess\<close> and the three bump sections with
  routines of \<open>dtk.process\<close> and \<open>scipy\<close>; these four values are arguments here,
  and so is \<open>scipy.optimize.fmin\<close>, which gets the error function and the seed.
\<close>

definition find_timeshift ::
  "((real \<Rightarrow> py_error + real) \<Rightarrow> real \<Rightarrow> py_error + real) \<Rightarrow> real \<Rightarrow> real list \<Rightarrow> real list \<Rightarrow>
   real list \<Rightarrow> py_error + real" where
  "find_timeshift fmin guess niBumpSec vnBumpSec timeBumpSec =
     (if length niBumpSec < 200 then Inl Warning
      else
        (case landscape tauRange niBumpSec vnBumpSec timeBumpSec of
           Inl e \<Rightarrow> Inl e
         | Inr error' \<Rightarrow>
             (let tau0 = seed guess error' in
              case fmin (\<lambda>t. sync_error t niBumpSec vnBumpSec timeBumpSec) tau0 of
                Inl e \<Rightarrow> Inl e
              | Inr tau' \<Rightarrow> Inr (if \<bar>tau' - tau0\<bar> > 0.01 then tau0 else tau'))))"

section \<open>Example data\<close>

text \<open>
  A run of a system test with one raw channel that is not scaled, and routines
  under which every stage that is a parameter fails.
\<close>

definition example_run :: "nat run" where
  "example_run =
     \<lparr>Maneuver = ''System Test'', filterFreq = Some 10,
      rawSignals =
        [\<lparr>name = Some ''PushButton'', runid = ''00105'', sampleRate = 200,
          source = Some ''NI'', units = Some ''volt'', samples = [1, 2],
          calibrationType = ''none'', sensor = None, supply_voltage = None, timeStamp = 0\<rparr>],
      calibratedSignals = None, truncatedSignals = None, computedSignals = None,
      taskSignals = None, tau = None, topSig = None\<rparr>"

definition failing_stages :: "nat externals" where
  "failing_stages =
     \<lparr>spline_over_nan = (\<lambda>t y. y), signal_filter = (\<lambda>s f. s),
      compute_time_shift = (\<lambda>r. Inl StandardError),
      compute_signals = (\<lambda>r. Inl StandardError),
      task_signals = (\<lambda>r. Inl StandardError)\<rparr>"

text \<open>
  The factor registered for a pair of units: the entry of \<open>conversions\<close> under the
  key \<open>a + '->' + b\<close>.
\<close>

definition factor :: "string \<Rightarrow> string \<Rightarrow> real option" where
  "factor a b = map_of conversions (a @ ''->'' @ b)"

text \<open>The ways to read a key as \<open>a + '->' + b\<close>.\<close>

definition arrow_splits :: "string \<Rightarrow> (string \<times> string) list" where
  "arrow_splits k =
     map (\<lambda>i. (take i k, drop (i + 2) k))
       (filter (\<lambda>i. take 2 (drop i k) = ''->'') [0..<length k])"

text \<open>A signal in pounds, for the examples.\<close>

definition pounds :: signal where
  "pounds =
     \<lparr>name = Some ''PullForce'', runid = ''00105'', sampleRate = 200, source = Some ''NI'',
      units = Some ''pound'', samples = [1, 2]\<rparr>"

text \<open>The entries of \<open>conversions\<close> with each key read as a pair of units.\<close>

definition registered_pairs :: "(string \<times> string \<times> real) list" where
  "registered_pairs =
     [(''degree'', ''radian'', pi / 180),
      (''degree/second'', ''radian/second'', pi / 180),
      (''degree/second/second'', ''radian/second/second'', pi / 180),
      (''inch*pound'', ''newton*meter'', 25.4 / 1000 * 4.44822162),
      (''pound'', ''newton'', 4.44822162),
      (''feet/second'', ''meter/second'', 12 * 2.54 / 100),
      (''mile/hour'', ''meter/second'', 0.00254 * 12 / 5280 / 3600)]"

text \<open>
  A sensor with three calibrations, at the dates 10, 20 and 30 of a date type of
  natural numbers, listed out of order.
\<close>

definition example_dates :: "string \<Rightarrow> nat option" where
  "example_dates =
     map_of [(''01-Mar-2011 10:00:00'', 10), (''21-Mar-2011 14:45:54'', 20),
             (''05-Apr-2011 09:30:00'', 30)]"

definition example_row :: "string \<Rightarrow> string \<Rightarrow> real \<Rightarrow> calibration" where
  "example_row cid stamp s =
     \<lparr>calibrationID = cid, cal_name = ''ForkRate'', cal_signal = ''ForkRate'',
      cal_units = ''radian/second'', cal_timeStamp = stamp, slope = s, bias = 1, offset = 0,
      calibrationSupplyVoltage = 5\<rparr>"

definition example_sensor :: sensor where
  "example_sensor =
     \<lparr>sensor_name = ''ForkRate'',
      data = [(''00002'', example_row ''00002'' ''21-Mar-2011 14:45:54'' 2),
              (''00003'', example_row ''00003'' ''05-Apr-2011 09:30:00'' 3),
              (''00001'', example_row ''00001'' ''01-Mar-2011 10:00:00'' 1)]\<rparr>"

text \<open>The supply voltage that goes with sample \<open>i\<close>.\<close>

fun supply_at :: "npval \<Rightarrow> nat \<Rightarrow> real" where
  "supply_at (Scalar v) i = v"
| "supply_at (Array vs) i = vs ! i"

text \<open>A supply voltage is a float or has one entry per sample.\<close>

fun fits :: "npval \<Rightarrow> nat \<Rightarrow> bool" where
  "fits (Scalar v) n = True"
| "fits (Array vs) n = (length vs = n)"

text \<open>
  A raw rate-gyro channel of calibration type \<open>bias\<close>, recorded at date 21 with a
  measured supply of 2.5 volts.
\<close>

definition example_raw :: "nat rawsignal" where
  "example_raw =
     \<lparr>name = Some ''ForkRate'', runid = ''00105'', sampleRate = 200, source = Some ''NI'',
      units = Some ''volt'', samples = [3], calibrationType = ''bias'',
      sensor = Some example_sensor, supply_voltage = Some (Scalar 2.5), timeStamp = 21\<rparr>"

text \<open>
  Vocabulary for reasoning about \<open>split_around_nan\<close>: its first split, the second
  split of one piece, the index pairs of consecutive sections starting at a given
  offset, and the non-empty sections.
\<close>

definition first_split :: "npfloat list \<Rightarrow> npfloat list list" where
  "first_split xs = np_split xs (nonzero (map isnan xs))"

definition again :: "npfloat list \<Rightarrow> npfloat list list" where
  "again arr =
     (if list_ex isnan arr then np_split arr (map (\<lambda>i. i + 1) (nonzero (map isnan arr)))
      else [arr])"

fun offsets :: "nat \<Rightarrow> 'a list list \<Rightarrow> (nat \<times> nat) list" where
  "offsets c [] = []"
| "offsets c (a # as) = (c, c + length a) # offsets (c + length a) as"

definition sections :: "npfloat list \<Rightarrow> npfloat list list" where
  "sections sig =
     filter (\<lambda>a. a \<noteq> [])
       (hd (first_split sig) # concat (map (\<lambda>a. [[hd a], tl a]) (tl (first_split sig))))"

text \<open>An array with a single and a double gap and a \<open>nan\<close> at its end.\<close>

definition example_gaps :: "npfloat list" where
  "example_gaps = [Num 1, NaN, NaN, Num 2, Num 3, NaN]"

text \<open>
  Two signals of three samples at one sample per second, one from each source.
\<close>

definition example_ni :: signal where
  "example_ni =
     \<lparr>name = Some ''AccelerometerAccelerationY'', runid = ''00105'', sampleRate = 1,
      source = Some ''NI'', units = Some ''meter/second/second'', samples = [10, 20, 30]\<rparr>"

definition example_vn :: signal where
  "example_vn =
     \<lparr>name = Some ''AccelerationZ'', runid = ''00105'', sampleRate = 1,
      source = Some ''VN'', units = Some ''meter/second/second'', samples = [1, 2, 3]\<rparr>"

text \<open>
  A run whose two calibrated accelerometer signals are nearly opposite, with a time
  shift of half a second, and routines that leave signals as they are.
\<close>

definition example_vn_acc :: signal where
  "example_vn_acc = example_vn\<lparr>samples := [- 12, - 22, 0]\<rparr>"

definition example_sync_run :: "nat run" where
  "example_sync_run =
     \<lparr>Maneuver = ''Balance'', filterFreq = None, rawSignals = [],
      calibratedSignals =
        Some [(Some ''AccelerometerAccelerationY'', example_ni),
              (Some ''AccelerationZ'', example_vn_acc)],
      truncatedSignals = None, computedSignals = None, taskSignals = None,
      tau = Some (1 / 2), topSig = Some ''calibrated''\<rparr>"

definition identity_routines :: "nat externals" where
  "identity_routines =
     \<lparr>spline_over_nan = (\<lambda>t y. y), signal_filter = (\<lambda>s f. s),
      compute_time_shift = (\<lambda>r. Inr r), compute_signals = (\<lambda>r. Inr r),
      task_signals = (\<lambda>r. Inr r)\<rparr>"

text \<open>
  Bump sections of 200 samples at 200 Hz on which both signals vanish, a stand-in
  for the minimiser that moves a given distance away from its seed.
\<close>

definition example_bump :: "real list" where
  "example_bump = replicate 200 0"

definition example_bump_time :: "real list" where
  "example_bump_time = time_vector 200 200"

definition example_fmin :: "real \<Rightarrow> (real \<Rightarrow> py_error + real) \<Rightarrow> real \<Rightarrow> py_error + real" where
  "example_fmin step f x0 = Inr (x0 + step)"

section \<open>Verification\<close>

subsection \<open>The run orchestrator\<close>

lemma calibrate_signals_Returns:
  assumes "calibrate_signals p self = Returns r"
  shows "topSig r = Some ''calibrated'' \<and> calibratedSignals r \<noteq> None
      \<and> truncatedSignals r = truncatedSignals self \<and> computedSignals r = computedSignals self
      \<and> taskSignals r = taskSignals self \<and> tau r = tau self \<and> filterFreq r = filterFreq self
      \<and> Maneuver r = Maneuver self"
  using assms by (auto simp: calibrate_signals_def bind_def split: outcome.splits)

lemma filter_top_signals_calibrated:
  assumes "topSig s = Some ''calibrated''" "filter_top_signals ext s f = Inr r"
  shows "topSig r = Some ''calibrated''
      \<and> (calibratedSignals s \<noteq> None \<longrightarrow> calibratedSignals r \<noteq> None)
      \<and> truncatedSignals r = truncatedSignals s \<and> computedSignals r = computedSignals s
      \<and> taskSignals r = taskSignals s \<and> tau r = tau s"
  using assms
  by (auto simp: filter_top_signals_def filter_values_def split: sum.splits option.splits)

lemma process_raw_signals_skips:
  assumes "Maneuver self \<in> {''Steer Dynamics Test'', ''System Test'', ''Static Calibration''}"
  shows "process_raw_signals p ext self =
           bind (calibrate_signals p self)
             (\<lambda>s. case filterFreq s of None \<Rightarrow> Returns s
                   | Some f \<Rightarrow> lift (filter_top_signals ext s f))"
proof (cases "calibrate_signals p self")
  case (Returns s)
  have "Maneuver s \<in> {''Steer Dynamics Test'', ''System Test'', ''Static Calibration''}"
    using calibrate_signals_Returns[OF Returns] assms by simp
  then show ?thesis
    unfolding process_raw_signals_def Returns by (auto simp: bind_def Let_def)
qed (simp_all add: process_raw_signals_def bind_def)

text \<open>
  C9. For a run whose maneuver is \<open>Steer Dynamics Test\<close>, \<open>System Test\<close> or
  \<open>Static Calibration\<close>, \<open>process_raw_signals\<close> is calibration followed by the
  optional filtering of the top signals, whatever the routines for the time shift, the
  computed signals and the task signals are: none of them, nor the time-shift check or
  the truncation, is run. When it returns, the stage marker is \<open>calibrated\<close>, the
  calibrated signals exist, and the truncated, computed and task signals and \<open>tau\<close>
  are what they were before (absent, for a new run).
\<close>

theorem process_raw_signals_stops_at_calibrated:
  assumes "Maneuver self \<in> {''Steer Dynamics Test'', ''System Test'', ''Static Calibration''}"
  shows "process_raw_signals p ext self =
           bind (calibrate_signals p self)
             (\<lambda>s. case filterFreq s of None \<Rightarrow> Returns s
                   | Some f \<Rightarrow> lift (filter_top_signals ext s f))
       \<and> (\<forall>r. process_raw_signals p ext self = Returns r \<longrightarrow>
           topSig r = Some ''calibrated'' \<and> calibratedSignals r \<noteq> None
         \<and> truncatedSignals r = truncatedSignals self \<and> computedSignals r = computedSignals self
         \<and> taskSignals r = taskSignals self \<and> tau r = tau self)"
proof (intro conjI allI impI)
  show eq: "process_raw_signals p ext self =
           bind (calibrate_signals p self)
             (\<lambda>s. case filterFreq s of None \<Rightarrow> Returns s
                   | Some f \<Rightarrow> lift (filter_top_signals ext s f))"
    by (rule process_raw_signals_skips[OF assms])
  fix r
  assume R: "process_raw_signals p ext self = Returns r"
  then obtain s where s: "calibrate_signals p self = Returns s"
    and r: "(case filterFreq s of None \<Rightarrow> Returns s
             | Some f \<Rightarrow> lift (filter_top_signals ext s f)) = Returns r"
    unfolding eq by (auto simp: bind_def split: outcome.splits)
  note cs = calibrate_signals_Returns[OF s]
  have *: "topSig r = Some ''calibrated'' \<and> calibratedSignals r \<noteq> None
         \<and> truncatedSignals r = truncatedSignals self \<and> computedSignals r = computedSignals self
         \<and> taskSignals r = taskSignals self \<and> tau r = tau self"
  proof (cases "filterFreq s")
    case None
    with r cs show ?thesis by simp
  next
    case (Some f)
    with r have "filter_top_signals ext s f = Inr r"
      by (auto simp: lift_def split: sum.splits)
    from filter_top_signals_calibrated[OF _ this] cs show ?thesis by simp
  qed
  from * show "topSig r = Some ''calibrated''" "calibratedSignals r \<noteq> None"
    "truncatedSignals r = truncatedSignals self" "computedSignals r = computedSignals self"
    "taskSignals r = taskSignals self" "tau r = tau self" by simp_all
qed

lemma example_run_processed:
  "process_raw_signals (\<lambda>s. None) failing_stages example_run =
     Returns (example_run\<lparr>calibratedSignals :=
                Some [(Some ''PushButton'',
                       \<lparr>name = Some ''PushButton'', runid = ''00105'', sampleRate = 200,
                        source = Some ''NI'', units = Some ''volt'', samples = [1, 2]\<rparr>)],
              topSig := Some ''calibrated''\<rparr>)"
  by (simp add: process_raw_signals_def example_run_def failing_stages_def
      calibrate_signals_def scale_def bind_def lift_def filter_top_signals_def
      filter_values_def signal.truncate_def Let_def)

theorem process_raw_signals_stops_at_calibrated_witness:
  "Maneuver example_run \<in> {''Steer Dynamics Test'', ''System Test'', ''Static Calibration''}
   \<and> (\<exists>r. process_raw_signals (\<lambda>s. None) failing_stages example_run = Returns r
          \<and> topSig r = Some ''calibrated'' \<and> calibratedSignals r \<noteq> None
          \<and> truncatedSignals r = None \<and> computedSignals r = None
          \<and> taskSignals r = None \<and> tau r = None)"
proof -
  have h: "Maneuver example_run \<in> {''Steer Dynamics Test'', ''System Test'', ''Static Calibration''}"
    by (simp add: example_run_def)
  obtain r where r: "process_raw_signals (\<lambda>s. None) failing_stages example_run = Returns r"
    using example_run_processed by blast
  from process_raw_signals_stops_at_calibrated[OF h, of "\<lambda>s. None" failing_stages] r
  have "topSig r = Some ''calibrated'' \<and> calibratedSignals r \<noteq> None
         \<and> truncatedSignals r = truncatedSignals example_run
         \<and> computedSignals r = computedSignals example_run
         \<and> taskSignals r = taskSignals example_run \<and> tau r = tau example_run"
    by blast
  then have "topSig r = Some ''calibrated'' \<and> calibratedSignals r \<noteq> None
          \<and> truncatedSignals r = None \<and> computedSignals r = None
          \<and> taskSignals r = None \<and> tau r = None"
    by (simp add: example_run_def)
  with h r show ?thesis by blast
qed

subsection \<open>Unit conversion\<close>

lemma arrow_splits_complete:
  assumes k: "a @ ''->'' @ b = k"
  shows "(a, b) \<in> set (arrow_splits k)"
proof -
  let ?i = "length a"
  have "?i < length k" using k by auto
  moreover have "take ?i k = a" "drop ?i k = ''->'' @ b" "drop (?i + 2) k = b"
    using k by auto
  ultimately show ?thesis
    unfolding arrow_splits_def by (auto simp: image_iff intro!: bexI[of _ ?i])
qed

lemma splits_table:
  "arrow_splits ''degree->radian'' = [(''degree'', ''radian'')]"
  "arrow_splits ''degree/second->radian/second'' = [(''degree/second'', ''radian/second'')]"
  "arrow_splits ''degree/second/second->radian/second/second'' =
     [(''degree/second/second'', ''radian/second/second'')]"
  "arrow_splits ''inch*pound->newton*meter'' = [(''inch*pound'', ''newton*meter'')]"
  "arrow_splits ''pound->newton'' = [(''pound'', ''newton'')]"
  "arrow_splits ''feet/second->meter/second'' = [(''feet/second'', ''meter/second'')]"
  "arrow_splits ''mile/hour->meter/second'' = [(''mile/hour'', ''meter/second'')]"
  by code_simp+

text \<open>Every registered factor belongs to exactly one pair of units of the table.\<close>

lemma factor_cases:
  assumes "factor a b = Some c"
  shows "(a, b, c) \<in> set registered_pairs"
proof -
  from assms have "(a @ ''->'' @ b, c) \<in> set conversions"
    unfolding factor_def by (rule map_of_SomeD)
  then consider
      "a @ ''->'' @ b = ''degree->radian''" "c = pi / 180"
    | "a @ ''->'' @ b = ''degree/second->radian/second''" "c = pi / 180"
    | "a @ ''->'' @ b = ''degree/second/second->radian/second/second''" "c = pi / 180"
    | "a @ ''->'' @ b = ''inch*pound->newton*meter''" "c = 25.4 / 1000 * 4.44822162"
    | "a @ ''->'' @ b = ''pound->newton''" "c = 4.44822162"
    | "a @ ''->'' @ b = ''feet/second->meter/second''" "c = 12 * 2.54 / 100"
    | "a @ ''->'' @ b = ''mile/hour->meter/second''" "c = 0.00254 * 12 / 5280 / 3600"
    unfolding conversions_def by auto
  then show ?thesis
  proof cases
    case 1 from arrow_splits_complete[OF 1(1)] 1(2) show ?thesis
      unfolding splits_table registered_pairs_def by simp
  next
    case 2 from arrow_splits_complete[OF 2(1)] 2(2) show ?thesis
      unfolding splits_table registered_pairs_def by simp
  next
    case 3 from arrow_splits_complete[OF 3(1)] 3(2) show ?thesis
      unfolding splits_table registered_pairs_def by simp
  next
    case 4 from arrow_splits_complete[OF 4(1)] 4(2) show ?thesis
      unfolding splits_table registered_pairs_def by simp
  next
    case 5 from arrow_splits_complete[OF 5(1)] 5(2) show ?thesis
      unfolding splits_table registered_pairs_def by simp
  next
    case 6 from arrow_splits_complete[OF 6(1)] 6(2) show ?thesis
      unfolding splits_table registered_pairs_def by simp
  next
    case 7 from arrow_splits_complete[OF 7(1)] 7(2) show ?thesis
      unfolding splits_table registered_pairs_def by simp
  qed
qed

lemma registered_pairs_props:
  assumes "(a, b, c) \<in> set registered_pairs"
  shows "c \<noteq> 0" "a \<noteq> b" "factor b a = None"
  using assms unfolding registered_pairs_def factor_def conversions_def by auto

lemma Signal_restores:
  "(Signal (samples (array_wrap self xs)) (as_dictionary self))\<lparr>units := Some u\<rparr>
     = self\<lparr>samples := xs, units := Some u\<rparr>"
  by (simp add: Signal_def array_wrap_def as_dictionary_def)

lemma factor_pound_newton:
  "factor ''pound'' ''newton'' = Some 4.44822162" "factor ''newton'' ''pound'' = None"
  "factor ''pound'' ''volt'' = None" "factor ''volt'' ''pound'' = None"
  by (simp_all add: factor_def conversions_def)

text \<open>
  C6, as amended. Let \<open>s\<close> be a signal and \<open>u\<close> a target unit. When the units of
  \<open>s\<close> are \<open>None\<close> (what arithmetic on signals leaves behind), \<open>convert_units\<close>
  raises \<open>TypeError\<close>. When the units of \<open>s\<close> are a string \<open>su\<close>,
  \<open>convert_units\<close> of \<open>bicycledataprocessor/main.py\<close> returns \<open>s\<close> unchanged if
  \<open>u = su\<close>; otherwise it raises \<open>KeyError\<close> if neither \<open>(su, u)\<close> nor
  \<open>(u, su)\<close> is registered, multiplies every sample by the factor of \<open>(su, u)\<close>
  if that pair is registered, and divides every sample by the factor of \<open>(u, su)\<close>
  if only that pair is registered; the result has the units \<open>u\<close> and otherwise
  the attributes of \<open>s\<close>. \<open>convert_units\<close> of \<open>DataProcessor.py\<close> does the same
  for \<open>u \<noteq> su\<close>, except that its result has no name and no source. The products
  and quotients are those of the real numbers.
\<close>

theorem convert_units_cases:
  "(units s = None \<longrightarrow>
      convert_units s u = Inl TypeError \<and> convert_units_dp s u = Inl TypeError)
   \<and> (units s = Some u \<longrightarrow> convert_units s u = Inr s)
   \<and> (\<forall>su. units s = Some su \<and> u \<noteq> su \<and> factor su u = None \<and> factor u su = None \<longrightarrow>
          convert_units s u = Inl KeyError \<and> convert_units_dp s u = Inl KeyError)
   \<and> (\<forall>su c. units s = Some su \<and> u \<noteq> su \<and> factor su u = Some c \<longrightarrow>
          convert_units s u =
            Inr (s\<lparr>samples := map (\<lambda>x. x * c) (samples s), units := Some u\<rparr>)
        \<and> convert_units_dp s u =
            Inr (s\<lparr>name := None, source := None, units := Some u,
                   samples := map (\<lambda>x. x * c) (samples s)\<rparr>))
   \<and> (\<forall>su c. units s = Some su \<and> u \<noteq> su \<and> factor su u = None \<and> factor u su = Some c \<longrightarrow>
          convert_units s u =
            Inr (s\<lparr>samples := map (\<lambda>x. x / c) (samples s), units := Some u\<rparr>)
        \<and> convert_units_dp s u =
            Inr (s\<lparr>name := None, source := None, units := Some u,
                   samples := map (\<lambda>x. x / c) (samples s)\<rparr>))"
  by (auto simp: convert_units_def convert_units_dp_def factor_def Signal_def as_dictionary_def
      array_wrap_def)

theorem convert_units_cases_witness:
  "convert_units (pounds\<lparr>units := None\<rparr>) ''newton'' = Inl TypeError
   \<and> convert_units pounds ''pound'' = Inr pounds
   \<and> convert_units pounds ''volt'' = Inl KeyError
   \<and> convert_units pounds ''newton'' =
       Inr (pounds\<lparr>samples := [4.44822162, 2 * 4.44822162], units := Some ''newton''\<rparr>)
   \<and> convert_units (pounds\<lparr>units := Some ''newton''\<rparr>) ''pound'' =
       Inr (pounds\<lparr>samples := [1 / 4.44822162, 2 / 4.44822162], units := Some ''pound''\<rparr>)"
proof -
  have h: "units pounds = Some ''pound''" by (simp add: pounds_def)
  have h': "units (pounds\<lparr>units := Some ''newton''\<rparr>) = Some ''newton''" by simp
  have hn: "units (pounds\<lparr>units := None\<rparr>) = None" by simp
  have s: "samples pounds = [1, 2]" by (simp add: pounds_def)
  have ne: "''newton'' \<noteq> ''pound''" "''volt'' \<noteq> ''pound''" "''pound'' \<noteq> ''newton''"
    by simp_all
  have 0: "convert_units (pounds\<lparr>units := None\<rparr>) ''newton'' = Inl TypeError"
    by (rule convert_units_cases[of "pounds\<lparr>units := None\<rparr>" "''newton''", THEN conjunct1,
          THEN mp, THEN conjunct1, OF hn])
  have 1: "convert_units pounds ''pound'' = Inr pounds"
    by (rule convert_units_cases[of pounds "''pound''", THEN conjunct2, THEN conjunct1,
          THEN mp, OF h])
  have 2: "convert_units pounds ''volt'' = Inl KeyError"
    by (rule convert_units_cases[of pounds "''volt''", THEN conjunct2, THEN conjunct2,
          THEN conjunct1, THEN spec, of "''pound''", THEN mp, THEN conjunct1,
          OF conjI[OF h conjI[OF ne(2) conjI[OF factor_pound_newton(3,4)]]]])
  have "convert_units pounds ''newton'' =
       Inr (pounds\<lparr>samples := map (\<lambda>x. x * 4.44822162) (samples pounds),
                   units := Some ''newton''\<rparr>)"
    by (rule convert_units_cases[of pounds "''newton''", THEN conjunct2, THEN conjunct2,
          THEN conjunct2, THEN conjunct1, THEN spec, of "''pound''", THEN spec,
          of "4.44822162", THEN mp, THEN conjunct1,
          OF conjI[OF h conjI[OF ne(1) factor_pound_newton(1)]]])
  then have 3: "convert_units pounds ''newton'' =
       Inr (pounds\<lparr>samples := [4.44822162, 2 * 4.44822162], units := Some ''newton''\<rparr>)"
    unfolding s by simp
  have "convert_units (pounds\<lparr>units := Some ''newton''\<rparr>) ''pound'' =
       Inr (pounds\<lparr>units := Some ''newton'',
                   samples := map (\<lambda>x. x / 4.44822162) (samples (pounds\<lparr>units := Some ''newton''\<rparr>)),
                   units := Some ''pound''\<rparr>)"
    by (rule convert_units_cases[of "pounds\<lparr>units := Some ''newton''\<rparr>" "''pound''",
          THEN conjunct2, THEN conjunct2, THEN conjunct2, THEN conjunct2, THEN spec,
          of "''newton''", THEN spec, of "4.44822162", THEN mp, THEN conjunct1,
          OF conjI[OF h' conjI[OF ne(3) conjI[OF factor_pound_newton(2,1)]]]])
  then have 4: "convert_units (pounds\<lparr>units := Some ''newton''\<rparr>) ''pound'' =
       Inr (pounds\<lparr>samples := [1 / 4.44822162, 2 / 4.44822162], units := Some ''pound''\<rparr>)"
    by (simp add: s)
  show ?thesis
    by (intro conjI 0 1 2 3 4)
qed

text \<open>
  Two inputs at which the claim as stated fails. A signal whose units are \<open>None\<close>
  makes \<open>convert_units\<close> raise \<open>TypeError\<close>, which is none of the three outcomes
  of the claim. \<open>convert_units\<close> of \<open>DataProcessor.py\<close> has no test for equal
  units: asked for the units the signal already has, it looks up \<open>pound->pound\<close>
  twice and raises \<open>KeyError\<close>.
\<close>

theorem convert_units_claim_fails:
  "convert_units (pounds\<lparr>units := None\<rparr>) ''newton'' = Inl TypeError
   \<and> factor ''pound'' ''newton'' = Some 4.44822162
   \<and> units pounds = Some ''pound''
   \<and> convert_units_dp pounds ''pound'' = Inl KeyError"
  using factor_pound_newton(1)
  by (simp add: convert_units_def convert_units_dp_def pounds_def conversions_def)

text \<open>
  For every registered pair of units the factor is not zero, the two units differ and the
  reverse pair is not registered: one direction of a conversion multiplies by the factor,
  the other divides by it.
\<close>

theorem registered_pair_structure:
  assumes "factor u1 u2 = Some c"
  shows "c \<noteq> 0 \<and> u1 \<noteq> u2 \<and> factor u2 u1 = None"
  using registered_pairs_props[OF factor_cases[OF assms]] by simp

theorem registered_pair_structure_witness:
  "factor ''pound'' ''newton'' = Some 4.44822162
   \<and> (4.44822162 :: real) \<noteq> 0 \<and> ''pound'' \<noteq> ''newton'' \<and> factor ''newton'' ''pound'' = None"
  using registered_pair_structure[OF factor_pound_newton(1)] factor_pound_newton(1) by simp

subsection \<open>Calibration lookup\<close>

lemma dateIdPairs_Inr:
  assumes "\<forall>(k, v) \<in> set items. parse (cal_timeStamp v) \<noteq> None"
  shows "dateIdPairs parse items = Inr (map (\<lambda>(k, v). (k, the (parse (cal_timeStamp v)))) items)"
  using assms by (induction items) (auto split: option.splits)

lemma sort_reverse_set: "set (sort_reverse ps) = set ps"
  by (simp add: sort_reverse_def)

lemma sort_reverse_length: "length (sort_reverse ps) = length ps"
  by (simp add: sort_reverse_def)

lemma sort_reverse_desc: "sorted (rev (map snd (sort_reverse ps)))"
  by (simp add: sort_reverse_def rev_map[symmetric])

lemma for_break_enumerate:
  "for_break runDate (enumerate n ps) i =
     (if \<exists>p \<in> set ps. snd p \<le> runDate
      then Some (n + length (takeWhile (\<lambda>p. \<not> snd p \<le> runDate) ps))
      else if ps = [] then i else Some (n + length ps - 1))"
  by (induction ps arbitrary: n i) (auto simp: not_le)


lemma takeWhile_stop:
  assumes "\<exists>x \<in> set xs. \<not> P x"
  shows "length (takeWhile P xs) < length xs"
    and "\<not> P (xs ! length (takeWhile P xs))"
    and "\<And>j. j < length (takeWhile P xs) \<Longrightarrow> P (xs ! j)"
proof -
  show "length (takeWhile P xs) < length xs"
    using assms by (induction xs) auto
  show "\<not> P (xs ! length (takeWhile P xs))"
    using assms by (induction xs) auto
  show "\<And>j. j < length (takeWhile P xs) \<Longrightarrow> P (xs ! j)"
    by (metis nth_mem set_takeWhileD takeWhile_nth)
qed

lemma get_data_for_date_index:
  fixes self :: sensor and parse :: "string \<Rightarrow> 'd::linorder option" and runDate :: 'd
  assumes d: "distinct (map fst (data self))"
    and p: "\<forall>(k, v) \<in> set (data self). parse (cal_timeStamp v) \<noteq> None"
    and ne: "data self \<noteq> []"
  defines "ps \<equiv> sort_reverse (map (\<lambda>(k, v). (k, the (parse (cal_timeStamp v)))) (data self))"
  defines "i \<equiv> (if \<exists>p \<in> set ps. snd p \<le> runDate
                  then length (takeWhile (\<lambda>p. \<not> snd p \<le> runDate) ps) else length ps - 1)"
  shows "i < length ps"
    and "\<exists>v. get_data_for_date parse self runDate = Inr v \<and> (fst (ps ! i), v) \<in> set (data self)
           \<and> parse (cal_timeStamp v) = Some (snd (ps ! i))"
proof -
  have len: "length ps = length (data self)" by (simp add: ps_def sort_reverse_length)
  with ne have ps_ne: "ps \<noteq> []" by auto
  show i: "i < length ps"
  proof (cases "\<exists>p \<in> set ps. snd p \<le> runDate")
    case True
    then have "length (takeWhile (\<lambda>p. \<not> snd p \<le> runDate) ps) < length ps"
      by (intro takeWhile_stop(1)) simp
    with True show ?thesis by (simp add: i_def)
  next
    case False
    with ps_ne show ?thesis by (simp add: i_def)
  qed
  have fb: "for_break runDate (enumerate 0 ps) None = Some i"
    using ps_ne by (simp add: for_break_enumerate i_def)
  from i have "ps ! i \<in> set ps" by simp
  then have "ps ! i \<in> set (map (\<lambda>(k, v). (k, the (parse (cal_timeStamp v)))) (data self))"
    by (simp add: ps_def sort_reverse_set)
  then obtain k v where kv: "(k, v) \<in> set (data self)"
    and eq: "ps ! i = (k, the (parse (cal_timeStamp v)))" by auto
  from p kv have pv: "parse (cal_timeStamp v) = Some (snd (ps ! i))" using eq by auto
  have mo: "map_of (data self) k = Some v" using d kv by (rule map_of_is_SomeI)
  have "get_data_for_date parse self runDate = Inr v"
    unfolding get_data_for_date_def dateIdPairs_Inr[OF p]
    using fb mo eq by (simp add: ps_def[symmetric] Let_def)
  with kv pv eq show "\<exists>v. get_data_for_date parse self runDate = Inr v
      \<and> (fst (ps ! i), v) \<in> set (data self) \<and> parse (cal_timeStamp v) = Some (snd (ps ! i))"
    by auto
qed

text \<open>
  The lookup when a calibration precedes the run. For a sensor whose records have
  distinct calibration ids and time stamps that parse, and a run date with at least one
  record at or before it, \<open>get_data_for_date\<close> returns a record whose time stamp is at
  or before the run date and is the largest such time stamp among the records.
\<close>

theorem get_data_for_date_latest:
  assumes d: "distinct (map fst (data self))"
    and p: "\<forall>(k, v) \<in> set (data self). parse (cal_timeStamp v) \<noteq> None"
    and ex: "\<exists>(k', v') \<in> set (data self). the (parse (cal_timeStamp v')) \<le> runDate"
  shows "\<exists>k v t. get_data_for_date parse self runDate = Inr v \<and> (k, v) \<in> set (data self)
           \<and> parse (cal_timeStamp v) = Some t \<and> t \<le> runDate
           \<and> (\<forall>(k', v') \<in> set (data self).
                 the (parse (cal_timeStamp v')) \<le> runDate \<longrightarrow> the (parse (cal_timeStamp v')) \<le> t)"
proof -
  from ex have ne: "data self \<noteq> []" by auto
  define ps where "ps = sort_reverse (map (\<lambda>(k, v). (k, the (parse (cal_timeStamp v)))) (data self))"
  define i where "i = (if \<exists>p \<in> set ps. snd p \<le> runDate
                  then length (takeWhile (\<lambda>p. \<not> snd p \<le> runDate) ps) else length ps - 1)"
  note idx = get_data_for_date_index[OF d p ne, of runDate, folded ps_def i_def]
  from idx obtain v where v: "get_data_for_date parse self runDate = Inr v"
    "(fst (ps ! i), v) \<in> set (data self)" "parse (cal_timeStamp v) = Some (snd (ps ! i))"
    by blast
  have i: "i < length ps" by (rule idx(1))
  have setps: "snd ` set ps = (\<lambda>(k, v). the (parse (cal_timeStamp v))) ` set (data self)"
    by (force simp: ps_def sort_reverse_set)
  have desc: "sorted (rev (map snd ps))" unfolding ps_def by (rule sort_reverse_desc)
  have mono: "\<And>a b. a \<le> b \<Longrightarrow> b < length ps \<Longrightarrow> snd (ps ! b) \<le> snd (ps ! a)"
    using sorted_rev_nth_mono[OF desc] by simp
  have ex_iff: "(\<exists>(k', v') \<in> set (data self). the (parse (cal_timeStamp v')) \<le> runDate)
        \<longleftrightarrow> (\<exists>p \<in> set ps. snd p \<le> runDate)"
  proof -
    have "(\<exists>p \<in> set ps. snd p \<le> runDate) \<longleftrightarrow> (\<exists>t \<in> snd ` set ps. t \<le> runDate)" by auto
    also have "\<dots> \<longleftrightarrow> (\<exists>(k', v') \<in> set (data self). the (parse (cal_timeStamp v')) \<le> runDate)"
      unfolding setps by fastforce
    finally show ?thesis by simp
  qed
  have A: "snd (ps ! i) \<le> runDate \<and> (\<forall>(k', v') \<in> set (data self).
              the (parse (cal_timeStamp v')) \<le> runDate \<longrightarrow> the (parse (cal_timeStamp v')) \<le> snd (ps ! i))"
    if ex: "\<exists>p \<in> set ps. snd p \<le> runDate"
  proof -
    have ieq: "i = length (takeWhile (\<lambda>p. \<not> snd p \<le> runDate) ps)" using ex by (simp add: i_def)
    have ex': "\<exists>p \<in> set ps. \<not> \<not> snd p \<le> runDate" using ex by simp
    have at: "snd (ps ! i) \<le> runDate"
      using takeWhile_stop(2)[OF ex'] unfolding ieq by simp
    have before: "\<And>j. j < i \<Longrightarrow> \<not> snd (ps ! j) \<le> runDate"
      unfolding ieq by (rule takeWhile_stop(3)[OF ex'])
    have "t \<le> snd (ps ! i)" if "t \<in> snd ` set ps" "t \<le> runDate" for t
    proof -
      from that obtain j where j: "j < length ps" "t = snd (ps ! j)"
        by (auto simp: in_set_conv_nth)
      with that before have "\<not> j < i" by auto
      then show ?thesis using mono[of i j] j by simp
    qed
    then show ?thesis using at unfolding setps by auto
  qed
  from ex have "\<exists>p \<in> set ps. snd p \<le> runDate" unfolding ex_iff .
  note A' = A[OF this]
  show ?thesis
    apply (rule exI[of _ "fst (ps ! i)"], rule exI[of _ v], rule exI[of _ "snd (ps ! i)"])
    using v A' by blast
qed

lemma example_sensor_facts:
  "distinct (map fst (data example_sensor))"
  "list_all (\<lambda>(k, v). example_dates (cal_timeStamp v) \<noteq> None) (data example_sensor)"
  "data example_sensor \<noteq> []"
  "map (\<lambda>(k, v). example_dates (cal_timeStamp v)) (data example_sensor) = [Some 20, Some 30, Some 10]"
  by (simp_all add: example_sensor_def example_row_def example_dates_def)

lemma example_sensor_sorted:
  "dateIdPairs example_dates (data example_sensor) = Inr [(''00002'', 20), (''00003'', 30), (''00001'', 10)]"
  "sort_reverse [(''00002'', 20::nat), (''00003'', 30), (''00001'', 10)] = [(''00003'', 30), (''00002'', 20), (''00001'', 10)]"
  by (simp_all add: example_sensor_def example_row_def example_dates_def sort_reverse_def)

lemma example_lookups:
  "get_data_for_date example_dates example_sensor 21 = Inr (example_row ''00002'' ''21-Mar-2011 14:45:54'' 2)"
  "get_data_for_date example_dates example_sensor 5 = Inr (example_row ''00001'' ''01-Mar-2011 10:00:00'' 1)"
  by (simp_all add: get_data_for_date_def example_sensor_sorted Let_def enumerate_eq_zip
      upt_conv_Cons)
     (simp_all add: example_sensor_def)

theorem get_data_for_date_latest_witness:
  "distinct (map fst (data example_sensor))
   \<and> list_all (\<lambda>(k, v). example_dates (cal_timeStamp v) \<noteq> None) (data example_sensor)
   \<and> data example_sensor \<noteq> []
   \<and> (\<exists>v t. get_data_for_date example_dates example_sensor 21 = Inr v
          \<and> v = example_row ''00002'' ''21-Mar-2011 14:45:54'' 2
          \<and> example_dates (cal_timeStamp v) = Some t \<and> t \<le> 21)"
proof -
  note f = example_sensor_facts
  have p: "\<forall>(k, v) \<in> set (data example_sensor). example_dates (cal_timeStamp v) \<noteq> None"
    using f(2) by (simp add: list_all_iff)
  have ex: "\<exists>(k', v') \<in> set (data example_sensor). the (example_dates (cal_timeStamp v')) \<le> 21"
    by (simp add: example_sensor_def example_row_def example_dates_def)
  from get_data_for_date_latest[OF f(1) p ex]
  obtain v t where "get_data_for_date example_dates example_sensor 21 = Inr v"
    "example_dates (cal_timeStamp v) = Some t" "t \<le> 21"
    by blast
  with example_lookups(1) f show ?thesis by auto
qed

text \<open>
  C1. The claim asks for an error when no record has a time stamp at or before the run
  time stamp. The loop of \<open>get_data_for_date\<close> has no branch for that case: with
  three records at the dates 10, 20 and 30 and a run at date 5 it ends without a
  \<open>break\<close>, \<open>i\<close> keeps the last index, and the record of date 10 is returned, a
  calibration taken after the run.
\<close>

theorem get_data_for_date_no_error:
  "map (\<lambda>(k, v). example_dates (cal_timeStamp v)) (data example_sensor) = [Some 20, Some 30, Some 10]
   \<and> get_data_for_date example_dates example_sensor 5
       = Inr (example_row ''00001'' ''01-Mar-2011 10:00:00'' 1)
   \<and> example_dates (cal_timeStamp (example_row ''00001'' ''01-Mar-2011 10:00:00'' 1)) = Some 10
   \<and> (5 :: nat) < 10"
  using example_sensor_facts(4) example_lookups(2)
  by (simp add: example_row_def example_dates_def)

subsection \<open>Scaling\<close>

lemma bind_Returns: "bind (Returns x) f = f x"
  by (simp add: bind_def)

lemma lift_Inr: "lift (Inr x) = Returns x"
  by (simp add: lift_def)

lemma bias_main:
  assumes "fits sv (length xs)" "c \<noteq> 0"
  shows "\<exists>ys. bind (np_div sv (Scalar c)) (\<lambda>a.
            bind (lift (np_op (*) a (Scalar b))) (\<lambda>b'.
            bind (lift (np_op (-) (Array xs) b')) (\<lambda>c'.
            bind (lift (np_op (*) (Scalar s) c')) k))) = k (Array ys)
          \<and> length ys = length xs
          \<and> (\<forall>i < length xs. ys ! i = s * (xs ! i - supply_at sv i / c * b))"
  using assms
  by (cases sv) (auto simp: np_div_def bind_def lift_def broadcast_def)

lemma bias_dp:
  assumes "fits sv (length xs)" "\<not> has_zero sv"
  shows "\<exists>ys. bind (np_div (Scalar c) sv) (\<lambda>a.
            bind (lift (np_op (*) a (Scalar s))) (\<lambda>b'.
            bind (lift (np_op (-) (Array xs) (Scalar b))) (\<lambda>c'.
            bind (lift (np_op (*) b' c')) k))) = k (Array ys)
          \<and> length ys = length xs
          \<and> (\<forall>i < length xs. ys ! i = c / supply_at sv i * s * (xs ! i - b))"
  using assms
  by (cases sv) (auto simp: np_div_def bind_def lift_def broadcast_def)

text \<open>
  C5, as amended. For a raw signal of calibration type \<open>bias\<close> whose name is not in
  \<open>doNotScale\<close>, with the calibration row \<open>calibData\<close> active at its time stamp, a
  supply voltage that is a float or has one entry per sample, and a non-zero calibration
  supply voltage, \<open>scale\<close> of \<open>bicycledataprocessor/main.py\<close> returns, sample by
  sample, \<open>slope * (raw - supply / calibrationSupplyVoltage * bias)\<close>; the result has the
  name and units of the calibration row and the source of the raw signal. \<open>scale\<close> of
  \<open>DataProcessor.py\<close> returns a signal with the same attributes whose samples are
  \<open>calibrationSupplyVoltage / supply * slope * (raw - bias)\<close>, for a supply voltage
  without zeros.
\<close>

theorem scale_bias:
  assumes ty: "calibrationType self = ''bias''"
    and nm: "name self \<notin> Some ` set doNotScale"
    and se: "sensor self = Some sens"
    and cd: "get_data_for_date parse sens (timeStamp self) = Inr calibData"
    and su: "supply_voltage self = Some sv"
    and ft: "fits sv (length (samples self))"
    and nz: "calibrationSupplyVoltage calibData \<noteq> 0"
  shows "(\<exists>r. scale parse self = Returns r
            \<and> name r = Some (cal_signal calibData) \<and> units r = Some (cal_units calibData)
            \<and> source r = source self \<and> length (samples r) = length (samples self)
            \<and> (\<forall>i < length (samples self).
                  samples r ! i =
                    slope calibData *
                      (samples self ! i
                       - supply_at sv i / calibrationSupplyVoltage calibData * bias calibData)))
       \<and> (\<not> has_zero sv \<longrightarrow>
           (\<exists>r. scale_dp parse self = Returns r
            \<and> name r = Some (cal_signal calibData) \<and> units r = Some (cal_units calibData)
            \<and> source r = source self \<and> length (samples r) = length (samples self)
            \<and> (\<forall>i < length (samples self).
                  samples r ! i =
                    calibrationSupplyVoltage calibData / supply_at sv i * slope calibData
                      * (samples self ! i - bias calibData))))"
proof (intro conjI impI)
  have ty': "calibrationType self \<notin> set [''none'', ''matrix'']"
    "calibrationType self \<noteq> ''interceptStar''" "calibrationType self \<noteq> ''intercept''"
    by (simp_all add: ty)
  have so: "supply_of self = Returns sv" by (simp add: supply_of_def su)
  from bias_main[OF ft nz, of "bias calibData" "slope calibData" "calibrated self calibData"]
  obtain ys where ys: "bind (np_div sv (Scalar (calibrationSupplyVoltage calibData))) (\<lambda>a.
            bind (lift (np_op (*) a (Scalar (bias calibData)))) (\<lambda>b'.
            bind (lift (np_op (-) (Array (samples self)) b')) (\<lambda>c'.
            bind (lift (np_op (*) (Scalar (slope calibData)) c')) (calibrated self calibData))))
              = calibrated self calibData (Array ys)"
    "length ys = length (samples self)"
    "\<forall>i < length (samples self). ys ! i = slope calibData *
        (samples self ! i - supply_at sv i / calibrationSupplyVoltage calibData * bias calibData)"
    by blast
  have "scale parse self = bind (np_div sv (Scalar (calibrationSupplyVoltage calibData))) (\<lambda>a.
            bind (lift (np_op (*) a (Scalar (bias calibData)))) (\<lambda>b'.
            bind (lift (np_op (-) (Array (samples self)) b')) (\<lambda>c'.
            bind (lift (np_op (*) (Scalar (slope calibData)) c')) (calibrated self calibData))))"
    using ty' nm se cd so
    by (simp add: scale_def ty Let_def bind_Returns lift_Inr del: np_op.simps)
  then have "scale parse self = calibrated self calibData (Array ys)"
    unfolding ys(1) .
  then show "\<exists>r. scale parse self = Returns r
            \<and> name r = Some (cal_signal calibData) \<and> units r = Some (cal_units calibData)
            \<and> source r = source self \<and> length (samples r) = length (samples self)
            \<and> (\<forall>i < length (samples self).
                  samples r ! i =
                    slope calibData *
                      (samples self ! i
                       - supply_at sv i / calibrationSupplyVoltage calibData * bias calibData))"
    using ys(2,3) by (simp add: calibrated_def)
next
  assume nz': "\<not> has_zero sv"
  have ty': "calibrationType self \<notin> set [''none'', ''matrix'']"
    "calibrationType self \<noteq> ''interceptStar''" "calibrationType self \<noteq> ''intercept''"
    by (simp_all add: ty)
  have so: "supply_of self = Returns sv" by (simp add: supply_of_def su)
  from bias_dp[OF ft nz', of "calibrationSupplyVoltage calibData" "slope calibData"
      "bias calibData" "calibrated self calibData"]
  obtain ys where ys: "bind (np_div (Scalar (calibrationSupplyVoltage calibData)) sv) (\<lambda>a.
            bind (lift (np_op (*) a (Scalar (slope calibData)))) (\<lambda>b'.
            bind (lift (np_op (-) (Array (samples self)) (Scalar (bias calibData)))) (\<lambda>c'.
            bind (lift (np_op (*) b' c')) (calibrated self calibData))))
              = calibrated self calibData (Array ys)"
    "length ys = length (samples self)"
    "\<forall>i < length (samples self). ys ! i =
        calibrationSupplyVoltage calibData / supply_at sv i * slope calibData
          * (samples self ! i - bias calibData)"
    by blast
  have "scale_dp parse self = bind (np_div (Scalar (calibrationSupplyVoltage calibData)) sv) (\<lambda>a.
            bind (lift (np_op (*) a (Scalar (slope calibData)))) (\<lambda>b'.
            bind (lift (np_op (-) (Array (samples self)) (Scalar (bias calibData)))) (\<lambda>c'.
            bind (lift (np_op (*) b' c')) (calibrated self calibData))))"
    using ty' nm se cd so
    by (simp add: scale_dp_def ty Let_def bind_Returns lift_Inr del: np_op.simps)
  then have "scale_dp parse self = calibrated self calibData (Array ys)"
    unfolding ys(1) .
  then show "\<exists>r. scale_dp parse self = Returns r
            \<and> name r = Some (cal_signal calibData) \<and> units r = Some (cal_units calibData)
            \<and> source r = source self \<and> length (samples r) = length (samples self)
            \<and> (\<forall>i < length (samples self).
                  samples r ! i =
                    calibrationSupplyVoltage calibData / supply_at sv i * slope calibData
                      * (samples self ! i - bias calibData))"
    using ys(2,3) by (simp add: calibrated_def)
qed


lemma example_raw_facts:
  "calibrationType example_raw = ''bias''"
  "name example_raw \<notin> Some ` set doNotScale"
  "sensor example_raw = Some example_sensor"
  "supply_voltage example_raw = Some (Scalar 2.5)"
  "fits (Scalar 2.5) (length (samples example_raw))"
  "timeStamp example_raw = 21"
  "samples example_raw = [3]"
  "source example_raw = Some ''NI''"
  by (simp_all add: example_raw_def doNotScale_def)

lemma example_row_facts:
  "calibrationSupplyVoltage (example_row a b c) = 5"
  "slope (example_row a b c) = c"
  "bias (example_row a b c) = 1"
  "cal_signal (example_row a b c) = ''ForkRate''"
  "cal_units (example_row a b c) = ''radian/second''"
  by (simp_all add: example_row_def)


lemma singleton_nth: "length xs = 1 \<Longrightarrow> xs ! 0 = x \<Longrightarrow> xs = [x]"
  by (cases xs) auto

theorem scale_bias_witness:
  "calibrationType example_raw = ''bias''
   \<and> name example_raw \<notin> Some ` set doNotScale
   \<and> sensor example_raw = Some example_sensor
   \<and> get_data_for_date example_dates example_sensor (timeStamp example_raw)
       = Inr (example_row ''00002'' ''21-Mar-2011 14:45:54'' 2)
   \<and> supply_voltage example_raw = Some (Scalar 2.5)
   \<and> fits (Scalar 2.5) (length (samples example_raw))
   \<and> calibrationSupplyVoltage (example_row ''00002'' ''21-Mar-2011 14:45:54'' 2) \<noteq> 0
   \<and> (\<exists>r. scale example_dates example_raw = Returns r \<and> samples r = [5]
          \<and> name r = Some ''ForkRate'' \<and> units r = Some ''radian/second''
          \<and> source r = Some ''NI'')"
proof -
  note f = example_raw_facts
  have cd: "get_data_for_date example_dates example_sensor (timeStamp example_raw)
       = Inr (example_row ''00002'' ''21-Mar-2011 14:45:54'' 2)"
    unfolding f(6) by (rule example_lookups(1))
  have nz: "calibrationSupplyVoltage (example_row ''00002'' ''21-Mar-2011 14:45:54'' 2) \<noteq> 0"
    by (simp add: example_row_facts)
  from scale_bias[OF f(1) f(2) f(3) cd f(4) f(5) nz, THEN conjunct1]
  obtain r where r: "scale example_dates example_raw = Returns r"
    "name r = Some ''ForkRate''" "units r = Some ''radian/second''" "source r = Some ''NI''"
    "length (samples r) = 1" "samples r ! 0 = 5"
    by (auto simp: f example_row_facts)
  from r(5,6) have "samples r = [5]" by (rule singleton_nth)
  with r f cd nz show ?thesis by blast
qed

text \<open>
  Slope 2, bias 1, calibration supply 5 volts, measured supply 2.5 volts and a raw sample
  of 3: the claimed equation gives 5, \<open>scale\<close> of \<open>DataProcessor.py\<close> gives 8.
\<close>

theorem scale_dp_bias_differs:
  "calibrationType example_raw = ''bias''
   \<and> get_data_for_date example_dates example_sensor (timeStamp example_raw)
       = Inr (example_row ''00002'' ''21-Mar-2011 14:45:54'' 2)
   \<and> slope (example_row ''00002'' ''21-Mar-2011 14:45:54'' 2)
       * (3 - 2.5 / calibrationSupplyVoltage (example_row ''00002'' ''21-Mar-2011 14:45:54'' 2)
              * bias (example_row ''00002'' ''21-Mar-2011 14:45:54'' 2)) = 5
   \<and> (\<exists>r. scale_dp example_dates example_raw = Returns r \<and> samples r = [8])"
proof -
  note f = example_raw_facts
  have cd: "get_data_for_date example_dates example_sensor (timeStamp example_raw)
       = Inr (example_row ''00002'' ''21-Mar-2011 14:45:54'' 2)"
    unfolding f(6) by (rule example_lookups(1))
  have "\<exists>r. scale_dp example_dates example_raw = Returns r \<and> samples r = [8]"
    using f(2) by (simp add: scale_dp_def f example_lookups(1) supply_of_def bind_def lift_def
        np_div_def calibrated_def example_row_facts Let_def)
  with f(1) cd show ?thesis by (simp add: example_row_facts)
qed

subsection \<open>Splitting around NaN\<close>

lemma slice_Suc: "slice (x # xs) (Suc a) (Suc b) = slice xs a b"
  by (simp add: slice_def)

lemma slice_0_Suc: "slice (x # xs) 0 (Suc b) = x # slice xs 0 b"
  by (simp add: slice_def)

lemma sub_arys_Suc: "sub_arys (map Suc dp) (x # xs) = sub_arys dp xs"
  by (induction dp xs rule: sub_arys.induct) (auto simp: slice_Suc)

lemma nonzero_Cons:
  "nonzero (b # bs) = (if b then [0] else []) @ map Suc (nonzero bs)"
proof -
  have "[0..<length (b # bs)] = 0 # map Suc [0..<length bs]"
    by (simp add: upt_conv_Cons map_Suc_upt del: upt_Suc)
  then show ?thesis
    unfolding nonzero_def by (simp add: filter_map o_def del: upt_Suc)
qed

lemma first_split_Nil: "first_split [] = [[]]"
  by (simp add: first_split_def np_split_def nonzero_def slice_def)

lemma first_split_Cons:
  "first_split (x # xs) =
     (if isnan x then [[]] else []) @ (x # hd (first_split xs)) # tl (first_split xs)"
proof -
  obtain d dp where dp: "nonzero (map isnan xs) @ [length xs] = d # dp"
    by (cases "nonzero (map isnan xs)") auto
  have 1: "sub_arys (0 # map Suc (d # dp)) (x # xs) = (x # slice xs 0 d) # sub_arys (d # dp) xs"
    using sub_arys_Suc[of "d # dp" x xs] by (simp add: slice_0_Suc)
  have 2: "first_split xs = slice xs 0 d # sub_arys (d # dp) xs"
    unfolding first_split_def np_split_def using dp by simp
  have 3: "map Suc (nonzero (map isnan xs)) @ [length (x # xs)] = map Suc (d # dp)"
    using dp by (metis length_Cons list.simps(9) map_append list.map(1))
  have 4: "sub_arys (0 # 0 # map Suc (d # dp)) (x # xs) = [] # sub_arys (0 # map Suc (d # dp)) (x # xs)"
    by (simp add: slice_def)
  show ?thesis
  proof (cases "isnan x")
    case True
    then have "first_split (x # xs) = sub_arys (0 # 0 # map Suc (d # dp)) (x # xs)"
      unfolding first_split_def np_split_def
      by (simp only: list.map nonzero_Cons if_True append_Cons append_Nil 3)
    then show ?thesis unfolding 4 1 2 using True by simp
  next
    case False
    then have "first_split (x # xs) = sub_arys (0 # map Suc (d # dp)) (x # xs)"
      unfolding first_split_def np_split_def
      by (simp only: list.map nonzero_Cons if_False append_Cons append_Nil 3)
    then show ?thesis unfolding 1 2 using False by simp
  qed
qed

lemma first_split_props:
  "first_split xs \<noteq> []"
  "\<not> list_ex isnan (hd (first_split xs))"
  "\<forall>a \<in> set (tl (first_split xs)). a \<noteq> [] \<and> isnan (hd a) \<and> \<not> list_ex isnan (tl a)"
  "concat (first_split xs) = xs"
proof -
  have "first_split xs \<noteq> [] \<and> \<not> list_ex isnan (hd (first_split xs))
      \<and> (\<forall>a \<in> set (tl (first_split xs)). a \<noteq> [] \<and> isnan (hd a) \<and> \<not> list_ex isnan (tl a))
      \<and> concat (first_split xs) = xs"
  proof (induction xs)
    case Nil
    show ?case by (simp add: first_split_Nil)
  next
    case (Cons x xs)
    then obtain h t where ht: "first_split xs = h # t" by (cases "first_split xs") auto
    with Cons show ?case by (auto simp: first_split_Cons)
  qed
  then show "first_split xs \<noteq> []"
  "\<not> list_ex isnan (hd (first_split xs))"
  "\<forall>a \<in> set (tl (first_split xs)). a \<noteq> [] \<and> isnan (hd a) \<and> \<not> list_ex isnan (tl a)"
  "concat (first_split xs) = xs" by simp_all
qed


lemma split_again_concat: "split_again arrays pieces = arrays @ concat (map again pieces)"
  by (induction pieces arbitrary: arrays) (auto simp: again_def)

lemma nonzero_Nil: "nonzero [] = []"
  by (simp add: nonzero_def)

lemma nonzero_all_False: "\<not> list_ex id bs \<Longrightarrow> nonzero bs = []"
  by (induction bs) (auto simp: nonzero_Cons nonzero_Nil)

lemma concat_nonempty: "concat (filter (\<lambda>a. a \<noteq> []) xss) = concat xss"
  by (induction xss) auto

lemma again_nan_head:
  assumes "a \<noteq> []" "isnan (hd a)" "\<not> list_ex isnan (tl a)"
  shows "again a = [[hd a], tl a]"
proof -
  obtain n r where a: "a = n # r" using assms(1) by (cases a) auto
  have "nonzero (map isnan r) = []"
    using assms(3) a by (intro nonzero_all_False) (simp add: list_ex_iff)
  then show ?thesis
    using assms(2) a by (simp add: again_def np_split_def nonzero_Cons slice_def)
qed

lemma index_filter:
  "map (\<lambda>i. xs ! i) (filter (\<lambda>i. i \<notin> set (filter (\<lambda>i. length (xs ! i) = 0) [0..<length xs]))
      [0..<length xs]) = filter (\<lambda>a. a \<noteq> []) xs"
proof -
  have "filter (\<lambda>i. i \<notin> set (filter (\<lambda>i. length (xs ! i) = 0) [0..<length xs])) [0..<length xs]
      = filter (\<lambda>i. xs ! i \<noteq> []) [0..<length xs]"
    by (rule filter_cong) auto
  moreover have "map (\<lambda>i. xs ! i) (filter (\<lambda>i. xs ! i \<noteq> []) [0..<length xs])
      = filter (\<lambda>a. a \<noteq> []) (map (\<lambda>i. xs ! i) [0..<length xs])"
    by (simp add: filter_map o_def)
  ultimately show ?thesis by (simp add: map_nth)
qed

lemma build_indices_offsets:
  assumes "\<forall>a \<in> set arrays. list_ex isnan a \<longrightarrow> length a = 1"
  shows "build_indices c acc arrays = acc @ offsets c arrays"
  using assms by (induction arrays arbitrary: c acc) auto

lemma length_offsets: "length (offsets c as) = length as"
  by (induction as arbitrary: c) auto

lemma slice_offsets:
  assumes "k < length as"
  shows "slice (pre @ concat as) (fst (offsets (length pre) as ! k))
           (snd (offsets (length pre) as ! k)) = as ! k"
  using assms
proof (induction as arbitrary: pre k)
  case Nil
  then show ?case by simp
next
  case (Cons a as)
  show ?case
  proof (cases k)
    case 0
    then show ?thesis by (simp add: slice_def)
  next
    case (Suc j)
    with Cons.prems have j: "j < length as" by simp
    from Cons.IH[OF j, of "pre @ a"] Suc show ?thesis by simp
  qed
qed

lemma split_around_nan_eq:
  "split_around_nan sig =
     (if list_ex isnan sig then (offsets 0 (sections sig), sections sig)
      else ([(0, length sig)], [sig]))"
proof (cases "list_ex isnan sig")
  case False
  then show ?thesis by (simp add: split_around_nan_def)
next
  case True
  note p = first_split_props[of sig]
  obtain h t where ht: "first_split sig = h # t" using p(1) by (cases "first_split sig") auto
  have ag: "map again t = map (\<lambda>a. [[hd a], tl a]) t"
    using p(3) ht by (intro map_cong) (auto simp: again_nan_head)
  have "again h = [h]" using p(2) ht by (simp add: again_def)
  then have "split_again [] (first_split sig) = h # concat (map (\<lambda>a. [[hd a], tl a]) t)"
    by (simp add: split_again_concat ht ag)
  then have sa: "split_again [] (first_split sig)
      = hd (first_split sig) # concat (map (\<lambda>a. [[hd a], tl a]) (tl (first_split sig)))"
    by (simp add: ht)
  have nan1: "\<forall>a \<in> set (sections sig). list_ex isnan a \<longrightarrow> length a = 1"
    using p(2,3) ht by (auto simp: sections_def list_ex_iff)
  have "split_around_nan sig = (build_indices 0 [] (sections sig), sections sig)"
    unfolding split_around_nan_def if_P[OF True] first_split_def[symmetric] Let_def index_filter
      sa sections_def[symmetric] ..
  then show ?thesis
    using True by (simp add: build_indices_offsets[OF nan1])
qed

lemma sections_props:
  "concat (sections sig) = sig"
  "\<forall>a \<in> set (sections sig). a \<noteq> []"
  "\<forall>a \<in> set (sections sig). list_ex isnan a \<longrightarrow> length a = 1"
proof -
  note p = first_split_props[of sig]
  obtain h t where ht: "first_split sig = h # t" using p(1) by (cases "first_split sig") auto
  have c: "concat (concat (map (\<lambda>a. [[hd a], tl a]) t)) = concat t"
    using p(3) unfolding ht by (induction t) auto
  have "concat (sections sig) = concat (h # concat (map (\<lambda>a. [[hd a], tl a]) t))"
    unfolding sections_def ht list.sel by (rule concat_nonempty)
  also have "\<dots> = concat (first_split sig)" by (simp add: c ht)
  finally show "concat (sections sig) = sig" by (simp add: p(4))
  show "\<forall>a \<in> set (sections sig). a \<noteq> []" by (simp add: sections_def)
  show "\<forall>a \<in> set (sections sig). list_ex isnan a \<longrightarrow> length a = 1"
    using p(2,3) ht by (auto simp: sections_def list_ex_iff)
qed

text \<open>
  C10, as amended. For every array \<open>sig\<close>, \<open>split_around_nan\<close> returns as many
  index pairs as arrays; the slice of \<open>sig\<close> between the two indices of pair \<open>k\<close> is
  array \<open>k\<close>; the arrays in order make up \<open>sig\<close>; an array that contains a \<open>nan\<close>
  has length one (so every other array is free of \<open>nan\<close>); no array is empty unless
  \<open>sig\<close> itself is empty; and for a \<open>sig\<close> without \<open>nan\<close> the result is the one
  pair \<open>(0, len(sig))\<close> with \<open>sig\<close>.
\<close>

theorem split_around_nan_sections:
  "case split_around_nan sig of
     (indices, arrays) \<Rightarrow>
       length indices = length arrays
     \<and> (\<forall>k < length arrays. slice sig (fst (indices ! k)) (snd (indices ! k)) = arrays ! k)
     \<and> concat arrays = sig
     \<and> (\<forall>a \<in> set arrays. list_ex isnan a \<longrightarrow> length a = 1)
     \<and> (sig \<noteq> [] \<longrightarrow> (\<forall>a \<in> set arrays. a \<noteq> []))
     \<and> (\<not> list_ex isnan sig \<longrightarrow> indices = [(0, length sig)] \<and> arrays = [sig])"
proof (cases "list_ex isnan sig")
  case False
  then show ?thesis
    by (auto simp: split_around_nan_eq slice_def list_ex_iff)
next
  case True
  note sp = sections_props[of sig]
  have sl: "\<forall>k < length (sections sig).
      slice sig (fst (offsets 0 (sections sig) ! k)) (snd (offsets 0 (sections sig) ! k))
        = sections sig ! k"
    using slice_offsets[of _ "sections sig" "[]"] sp(1) by simp
  show ?thesis
    using True sl sp by (simp add: split_around_nan_eq length_offsets)
qed


lemma example_gaps_split:
  "split_around_nan example_gaps =
     ([(0, 1), (1, 2), (2, 3), (3, 5), (5, 6)], [[Num 1], [NaN], [NaN], [Num 2, Num 3], [NaN]])"
  by (simp add: split_around_nan_def example_gaps_def np_split_def nonzero_def slice_def
      Let_def upt_conv_Cons)

theorem split_around_nan_sections_witness:
  "split_around_nan example_gaps =
     ([(0, 1), (1, 2), (2, 3), (3, 5), (5, 6)], [[Num 1], [NaN], [NaN], [Num 2, Num 3], [NaN]])
   \<and> slice example_gaps 3 5 = [Num 2, Num 3]
   \<and> slice example_gaps 5 6 = [NaN]
   \<and> concat [[Num 1], [NaN], [NaN], [Num 2, Num 3], [NaN]] = example_gaps"
proof -
  define idx :: "(nat \<times> nat) list" where "idx = [(0, 1), (1, 2), (2, 3), (3, 5), (5, 6)]"
  define arrs where "arrs = [[Num 1], [NaN], [NaN], [Num 2, Num 3], [NaN]]"
  have ev: "split_around_nan example_gaps = (idx, arrs)"
    unfolding idx_def arrs_def by (rule example_gaps_split)
  from split_around_nan_sections[of example_gaps]
  have all: "\<forall>k < length arrs. slice example_gaps (fst (idx ! k)) (snd (idx ! k)) = arrs ! k"
    and cc: "concat arrs = example_gaps"
    unfolding ev by simp_all
  have "3 < length arrs" "4 < length arrs" by (simp_all add: arrs_def)
  with all have "slice example_gaps (fst (idx ! 3)) (snd (idx ! 3)) = arrs ! 3"
    "slice example_gaps (fst (idx ! 4)) (snd (idx ! 4)) = arrs ! 4" by blast+
  then have "slice example_gaps 3 5 = [Num 2, Num 3]" "slice example_gaps 5 6 = [NaN]"
    by (simp_all add: idx_def arrs_def)
  with cc ev show ?thesis by (simp add: idx_def arrs_def)
qed

text \<open>The empty array has no \<open>nan\<close>; the one section returned for it is empty.\<close>

theorem split_around_nan_empty:
  "\<not> list_ex isnan [] \<and> split_around_nan [] = ([(0, 0)], [[]])"
  by (simp add: split_around_nan_def)

subsection \<open>Masks over sorted time vectors\<close>

lemma nonzero_snoc: "nonzero (bs @ [b]) = nonzero bs @ (if b then [length bs] else [])"
  by (auto simp: nonzero_def nth_append intro!: filter_cong)

lemma all_nth_set: "(\<And>i. i < length ys \<Longrightarrow> Q (ys ! i)) \<Longrightarrow> \<forall>x \<in> set ys. Q x"
  by (auto simp: in_set_conv_nth)

text \<open>A mask that is true on a prefix selects that prefix.\<close>

lemma nonzero_prefix:
  assumes "\<And>i j. i \<le> j \<Longrightarrow> j < length ys \<Longrightarrow> P (ys ! j) \<Longrightarrow> P (ys ! i)"
  shows "nonzero (map P ys) = [0..<length (filter P ys)]"
  using assms
proof (induction ys rule: rev_induct)
  case Nil
  show ?case by (simp add: nonzero_Nil)
next
  case (snoc y ys)
  have closed: "P (ys ! i)" if "i \<le> j" "j < length ys" "P (ys ! j)" for i j
    using snoc.prems[of i j] that by (simp add: nth_append)
  note IH = snoc.IH[OF closed]
  show ?case
  proof (cases "P y")
    case False
    then show ?thesis by (simp add: nonzero_snoc IH)
  next
    case True
    have "P (ys ! i)" if "i < length ys" for i
      using snoc.prems[of i "length ys"] that True by (simp add: nth_append)
    then have "\<forall>x \<in> set ys. P x" by (rule all_nth_set)
    then have "filter P ys = ys" by (simp add: filter_id_conv)
    with True show ?thesis by (simp add: nonzero_snoc IH)
  qed
qed

text \<open>A mask that is true on a suffix selects that suffix.\<close>

lemma nonzero_suffix:
  assumes "\<And>i j. i \<le> j \<Longrightarrow> j < length ys \<Longrightarrow> P (ys ! i) \<Longrightarrow> P (ys ! j)"
  shows "nonzero (map P ys) = [length ys - length (filter P ys)..<length ys]"
  using assms
proof (induction ys rule: rev_induct)
  case Nil
  show ?case by (simp add: nonzero_Nil)
next
  case (snoc y ys)
  have closed: "P (ys ! j)" if "i \<le> j" "j < length ys" "P (ys ! i)" for i j
    using snoc.prems[of i j] that by (simp add: nth_append)
  note IH = snoc.IH[OF closed]
  show ?case
  proof (cases "P y")
    case True
    have "length (filter P ys) \<le> length ys" by simp
    then show ?thesis using True by (simp add: nonzero_snoc IH Suc_diff_le)
  next
    case False
    have "\<not> P (ys ! i)" if "i < length ys" for i
      using snoc.prems[of i "length ys"] that False by (auto simp: nth_append)
    then have "\<forall>x \<in> set ys. \<not> P x" by (rule all_nth_set)
    then have "filter P ys = []" by (simp add: filter_empty_conv)
    with False show ?thesis by (simp add: nonzero_snoc IH)
  qed
qed

lemma take_indices_upt2:
  assumes n: "n \<le> length xs"
  shows "take_indices xs [m..<n] = Inr (drop m (take n xs))"
proof -
  have "map ((!) xs) [m..<n] = drop m (take n xs)"
    by (rule nth_equalityI) (use n in auto)
  then show ?thesis using n by (simp add: take_indices_def list_all_iff)
qed

lemma take_indices_upt:
  "k \<le> length xs \<Longrightarrow> take_indices xs [0..<k] = Inr (take k xs)"
  using take_indices_upt2[of k xs 0] by simp

lemma nonzero_map: "nonzero (map P ys) = filter (\<lambda>i. P (ys ! i)) [0..<length ys]"
  unfolding nonzero_def by (auto intro!: filter_cong)

text \<open>Selecting with a mask made from the array itself is filtering.\<close>

lemma mask_select: "take_indices ys (nonzero (map P ys)) = Inr (filter P ys)"
proof -
  have "map ((!) ys) (filter (\<lambda>i. P (ys ! i)) [0..<length ys])
      = filter P (map ((!) ys) [0..<length ys])"
    by (simp add: filter_map o_def)
  then show ?thesis
    by (simp add: take_indices_def nonzero_map list_all_iff map_nth)
qed

lemma length_time_vector: "length (time_vector n r) = n"
  by (simp add: time_vector_def)

lemma nth_time_vector: "i < n \<Longrightarrow> time_vector n r ! i = real i / r"
  by (simp add: time_vector_def)

lemma time_vector_Nil: "time_vector n r = [] \<longleftrightarrow> n = 0"
  by (simp add: time_vector_def)

lemma last_time_vector:
  assumes "0 < n"
  shows "last (time_vector n r) = real (n - 1) / r"
proof -
  have "time_vector n r \<noteq> []" using assms by (simp add: time_vector_Nil)
  then have "last (time_vector n r) = time_vector n r ! (n - 1)"
    by (simp add: last_conv_nth length_time_vector)
  then show ?thesis using assms by (simp add: nth_time_vector)
qed

lemma hd_time_vector:
  assumes "0 < n"
  shows "hd (time_vector n r) = 0"
proof -
  have "time_vector n r \<noteq> []" using assms by (simp add: time_vector_Nil)
  then have "hd (time_vector n r) = time_vector n r ! 0" by (rule hd_conv_nth)
  then show ?thesis using assms by (simp add: nth_time_vector)
qed

lemma sorted_time_vector: "0 < r \<Longrightarrow> sorted_wrt (<) (time_vector n r)"
  by (simp add: sorted_wrt_iff_nth_less length_time_vector nth_time_vector divide_strict_right_mono)

lemma sorted_last_max:
  assumes "sorted xs" "x \<in> set xs"
  shows "x \<le> last xs"
proof -
  from assms(2) obtain i where i: "i < length xs" "xs ! i = x" by (auto simp: in_set_conv_nth)
  then have "xs \<noteq> []" by auto
  then have "last xs = xs ! (length xs - 1)" by (rule last_conv_nth)
  moreover have "xs ! i \<le> xs ! (length xs - 1)"
    using assms(1) i by (intro sorted_nth_mono) auto
  ultimately show ?thesis using i by simp
qed

lemma sorted_hd_min:
  assumes "sorted xs" "x \<in> set xs"
  shows "hd xs \<le> x"
  using assms by (cases xs) auto

text \<open>The second mask of \<open>truncate_data\<close> and of \<open>sync_error\<close> for a positive shift.\<close>

lemma prefix_masks:
  fixes ys :: "real list"
  assumes st: "sorted ys" and len: "length ys \<le> length xs"
    and ne: "filter (\<lambda>x. x < c) ys \<noteq> []"
  shows "take_indices xs (nonzero (map (\<lambda>x. x \<le> last (filter (\<lambda>x. x < c) ys)) ys))
       = Inr (take (length (filter (\<lambda>x. x < c) ys)) xs)"
proof -
  let ?tcom = "filter (\<lambda>x. x < c) ys"
  have stc: "sorted ?tcom" using st sorted_wrt_filter[of "(\<le>)" ys "\<lambda>x. x < c"] by simp
  have "last ?tcom \<in> set ?tcom" using ne by (rule last_in_set)
  then have lt: "last ?tcom < c" by simp
  have eq: "filter (\<lambda>x. x \<le> last ?tcom) ys = ?tcom"
  proof (rule filter_cong[OF refl])
    fix x assume x: "x \<in> set ys"
    show "(x \<le> last ?tcom) = (x < c)"
    proof
      assume "x \<le> last ?tcom" with lt show "x < c" by simp
    next
      assume "x < c"
      with x have "x \<in> set ?tcom" by simp
      with stc show "x \<le> last ?tcom" by (rule sorted_last_max)
    qed
  qed
  have "nonzero (map (\<lambda>x. x \<le> last ?tcom) ys) = [0..<length (filter (\<lambda>x. x \<le> last ?tcom) ys)]"
  proof (rule nonzero_prefix)
    fix i j assume "i \<le> j" "j < length ys" "ys ! j \<le> last ?tcom"
    moreover from this st have "ys ! i \<le> ys ! j" by (intro sorted_nth_mono) auto
    ultimately show "ys ! i \<le> last ?tcom" by simp
  qed
  then have "nonzero (map (\<lambda>x. x \<le> last ?tcom) ys) = [0..<length ?tcom]"
    unfolding eq .
  moreover have "length ?tcom \<le> length xs"
    using len length_filter_le[of "\<lambda>x. x < c" ys] by linarith
  ultimately show ?thesis by (simp add: take_indices_upt)
qed

subsection \<open>Truncation\<close>

lemma ne_set_nonempty: "x \<in> set xs \<Longrightarrow> xs \<noteq> []"
  by auto

lemma Signal_as_dictionary: "Signal xs (as_dictionary s) = s\<lparr>samples := xs\<rparr>"
  by (simp add: Signal_def as_dictionary_def)

text \<open>What \<open>truncate_data\<close> returns for a shift shorter than the signal.\<close>

lemma truncate_data_overlap:
  assumes sr: "0 < sampleRate s" and ne: "samples s \<noteq> []"
    and tau: "tau' < last (time s)"
  defines "tcom \<equiv> filter (\<lambda>x. x < last (time s) - tau') (time s)"
  shows "tcom \<noteq> []"
    and "source s = Some ''NI'' \<Longrightarrow>
           truncate_data s tau' =
             Inr (s\<lparr>samples := map (interp1 (map (\<lambda>x. x - tau') (time s)) (samples s)) tcom\<rparr>)"
    and "source s = Some ''VN'' \<Longrightarrow>
           truncate_data s tau' = Inr (s\<lparr>samples := take (length tcom) (samples s)\<rparr>)"
proof -
  let ?t = "time_vector (length (samples s)) (sampleRate s)"
  have t: "time s = ?t" by (simp add: time_def)
  have n: "0 < length (samples s)" using ne by simp
  have tne: "?t \<noteq> []" using n by (simp add: time_vector_Nil)
  have lastni: "last (map (\<lambda>x. x - tau') ?t) = last ?t - tau'"
    using tne by (simp add: last_map)
  have "hd ?t = 0" using n by (rule hd_time_vector)
  moreover have "hd ?t \<in> set ?t" using tne by simp
  ultimately have "0 \<in> set ?t" by simp
  moreover have "0 < last ?t - tau'" using tau by (simp add: t)
  ultimately have "0 \<in> set (filter (\<lambda>x. x < last ?t - tau') ?t)" by simp
  then have "filter (\<lambda>x. x < last ?t - tau') ?t \<noteq> []" by (rule ne_set_nonempty)
  then show tc: "tcom \<noteq> []" unfolding tcom_def t .
  have sel: "take_indices ?t (nonzero (map (\<lambda>x. x < last (map (\<lambda>x. x - tau') ?t)) ?t)) = Inr tcom"
    unfolding lastni tcom_def t by (rule mask_select)
  have st: "sorted ?t"
    using sorted_time_vector[OF sr] by (rule strict_sorted_imp_sorted)
  {
    assume src: "source s = Some ''NI''"
    show "truncate_data s tau' =
             Inr (s\<lparr>samples := map (interp1 (map (\<lambda>x. x - tau') (time s)) (samples s)) tcom\<rparr>)"
      unfolding truncate_data_def Let_def sel
      using tne src by (simp add: interp_def length_time_vector Signal_as_dictionary t)
  }
  {
    assume src: "source s = Some ''VN''"
    have "take_indices (samples s) (nonzero (map (\<lambda>x. x \<le> last tcom) ?t))
        = Inr (take (length tcom) (samples s))"
      unfolding tcom_def t
      by (rule prefix_masks[OF st]) (use tc in \<open>simp_all add: length_time_vector tcom_def t\<close>)
    then show "truncate_data s tau' = Inr (s\<lparr>samples := take (length tcom) (samples s)\<rparr>)"
      unfolding truncate_data_def Let_def sel
      using tne src tc by simp
  }
qed


text \<open>
  C3. Let an NI signal and a VN signal have the same number of samples (at least one) and
  the same positive sample rate, and let \<open>tau\<close> be less than the duration, the last
  entry of the time vector. Then \<open>truncate_data\<close> succeeds on both with the same
  \<open>tau\<close>. The common grid \<open>tcom\<close> consists of the VN times that are less than the
  NI end time shifted by \<open>tau\<close>; it is not empty. The NI samples are those of the linear
  interpolation of the signal over the shifted times, taken at the grid; the VN samples
  are the first \<open>len(tcom)\<close> samples. Both results have as many samples as the grid
  and the same sample rate, hence the same time vector: their last time stamps coincide
  and so differ by less than one sample period. \<open>Signal.truncate\<close> returns the same
  signals.
\<close>

theorem truncate_data_common_grid:
  assumes ni: "source ni = Some ''NI''" and vn: "source vn = Some ''VN''"
    and len: "length (samples ni) = length (samples vn)"
    and rate: "sampleRate ni = sampleRate vn"
    and sr: "0 < sampleRate ni" and ne: "samples ni \<noteq> []"
    and tau: "tau' < last (time ni)"
  shows "\<exists>tcom a b.
           tcom = filter (\<lambda>x. x < last (time ni) - tau') (time vn) \<and> tcom \<noteq> []
         \<and> truncate_data ni tau' = Inr a \<and> truncate_data vn tau' = Inr b
         \<and> a = ni\<lparr>samples := map (interp1 (map (\<lambda>x. x - tau') (time ni)) (samples ni)) tcom\<rparr>
         \<and> b = vn\<lparr>samples := take (length tcom) (samples vn)\<rparr>
         \<and> length (samples a) = length tcom \<and> length (samples b) = length tcom
         \<and> time a = time b
         \<and> \<bar>last (time a) - last (time b)\<bar> < 1 / sampleRate ni
         \<and> Signal_truncate ni tau' = Inr a \<and> Signal_truncate vn tau' = Inr b"
proof -
  have tt: "time vn = time ni" by (simp add: time_def len rate)
  have sr': "0 < sampleRate vn" and ne': "samples vn \<noteq> []" and tau2: "tau' < last (time vn)"
    using sr ne tau len rate tt by auto
  define tcom where "tcom = filter (\<lambda>x. x < last (time ni) - tau') (time vn)"
  let ?a = "ni\<lparr>samples := map (interp1 (map (\<lambda>x. x - tau') (time ni)) (samples ni)) tcom\<rparr>"
  let ?b = "vn\<lparr>samples := take (length tcom) (samples vn)\<rparr>"
  note A = truncate_data_overlap[OF sr ne tau]
  note B = truncate_data_overlap[OF sr' ne' tau2]
  have tc: "tcom \<noteq> []" using A(1) by (simp add: tcom_def tt)
  have a: "truncate_data ni tau' = Inr ?a" using A(2)[OF ni] by (simp add: tcom_def tt)
  have b: "truncate_data vn tau' = Inr ?b" using B(3)[OF vn] by (simp add: tcom_def tt)
  have "length tcom \<le> length (time vn)" unfolding tcom_def by (rule length_filter_le)
  then have le: "length tcom \<le> length (samples vn)" by (simp add: time_def length_time_vector)
  have la: "length (samples ?a) = length tcom" by simp
  have lb: "length (samples ?b) = length tcom" using le by simp
  have tm: "time ?a = time ?b" using le by (simp add: time_def rate)
  have df: "\<bar>last (time ?a) - last (time ?b)\<bar> < 1 / sampleRate ni" using sr by (simp add: tm)
  have sa: "Signal_truncate ni tau' = Inr ?a"
    by (simp add: Signal_truncate_def a Signal_as_dictionary)
  have sb: "Signal_truncate vn tau' = Inr ?b"
    by (simp add: Signal_truncate_def b Signal_as_dictionary)
  show ?thesis
    apply (rule exI[of _ tcom], rule exI[of _ ?a], rule exI[of _ ?b])
    using tc a b la lb tm df sa sb by (simp add: tcom_def)
qed

lemma example_times: "time example_ni = [0, 1, 2]" "time example_vn = [0, 1, 2]"
  by (simp_all add: time_def time_vector_def example_ni_def example_vn_def upt_conv_Cons)

theorem truncate_data_common_grid_witness:
  "source example_ni = Some ''NI'' \<and> source example_vn = Some ''VN''
   \<and> length (samples example_ni) = length (samples example_vn)
   \<and> sampleRate example_ni = sampleRate example_vn \<and> 0 < sampleRate example_ni
   \<and> samples example_ni \<noteq> [] \<and> (1 / 2 :: real) < last (time example_ni)
   \<and> truncate_data example_ni (1 / 2) = Inr (example_ni\<lparr>samples := [15, 25]\<rparr>)
   \<and> truncate_data example_vn (1 / 2) = Inr (example_vn\<lparr>samples := [1, 2]\<rparr>)"
proof -
  have h: "source example_ni = Some ''NI''" "source example_vn = Some ''VN''"
    "length (samples example_ni) = length (samples example_vn)"
    "sampleRate example_ni = sampleRate example_vn" "0 < sampleRate example_ni"
    "samples example_ni \<noteq> []" "(1 / 2 :: real) < last (time example_ni)"
    by (simp_all add: example_times) (simp_all add: example_ni_def example_vn_def)
  have f: "filter (\<lambda>x. x < last (time example_ni) - 1 / 2) (time example_vn) = [0, 1]"
    by (simp add: example_times)
  have s: "samples example_ni = [10, 20, 30]" "samples example_vn = [1, 2, 3]"
    by (simp_all add: example_ni_def example_vn_def)
  from truncate_data_common_grid[OF h]
  have "truncate_data example_ni (1 / 2) =
          Inr (example_ni\<lparr>samples := map (interp1 (map (\<lambda>x. x - 1 / 2) (time example_ni))
                 (samples example_ni)) [0, 1]\<rparr>)"
    "truncate_data example_vn (1 / 2) =
          Inr (example_vn\<lparr>samples := take (length [0 :: real, 1]) (samples example_vn)\<rparr>)"
    unfolding f by auto
  then have "truncate_data example_ni (1 / 2) = Inr (example_ni\<lparr>samples := [15, 25]\<rparr>)"
    "truncate_data example_vn (1 / 2) = Inr (example_vn\<lparr>samples := [1, 2]\<rparr>)"
    by (simp_all add: example_times s)
  with h show ?thesis by simp
qed

subsection \<open>Synchronisation error\<close>

text \<open>The second mask of \<open>sync_error\<close> for a shift that is not positive.\<close>

lemma suffix_masks:
  fixes ys :: "real list"
  assumes st: "sorted ys" and len: "length ys = length xs"
    and ne: "filter (\<lambda>x. x > c) ys \<noteq> []"
  shows "take_indices xs (nonzero (map (\<lambda>x. x \<ge> hd (filter (\<lambda>x. x > c) ys)) ys))
       = Inr (drop (length xs - length (filter (\<lambda>x. x > c) ys)) xs)"
proof -
  let ?int = "filter (\<lambda>x. x > c) ys"
  have sti: "sorted ?int" using st sorted_wrt_filter[of "(\<le>)" ys "\<lambda>x. x > c"] by simp
  have "hd ?int \<in> set ?int" using ne by (rule hd_in_set)
  then have gt: "hd ?int > c" by simp
  have eq: "filter (\<lambda>x. x \<ge> hd ?int) ys = ?int"
  proof (rule filter_cong[OF refl])
    fix x assume x: "x \<in> set ys"
    show "(x \<ge> hd ?int) = (x > c)"
    proof
      assume "x \<ge> hd ?int" with gt show "x > c" by simp
    next
      assume "x > c"
      with x have "x \<in> set ?int" by simp
      with sti show "x \<ge> hd ?int" by (rule sorted_hd_min)
    qed
  qed
  have "nonzero (map (\<lambda>x. x \<ge> hd ?int) ys)
      = [length ys - length (filter (\<lambda>x. x \<ge> hd ?int) ys)..<length ys]"
  proof (rule nonzero_suffix)
    fix i j assume "i \<le> j" "j < length ys" "ys ! i \<ge> hd ?int"
    moreover from this st have "ys ! i \<le> ys ! j" by (intro sorted_nth_mono) auto
    ultimately show "ys ! j \<ge> hd ?int" by simp
  qed
  then have "nonzero (map (\<lambda>x. x \<ge> hd ?int) ys) = [length xs - length ?int..<length xs]"
    unfolding eq len .
  then show ?thesis by (simp add: take_indices_upt2)
qed

lemma broadcast_same_length:
  "length xs = length ys \<Longrightarrow> broadcast f xs ys = Inr (map2 f xs ys)"
  by (simp add: broadcast_def)

text \<open>
  The value of \<open>sync_error\<close> for a strictly increasing time vector that starts at
  zero, signals as long as the time vector, and a shift shorter than the last time.
\<close>

lemma sync_error_value:
  assumes st: "sorted_wrt (<) time'" and ne: "time' \<noteq> []" and h0: "hd time' = 0"
    and l1: "length signal1 = length time'" and l2: "length signal2 = length time'"
    and tau: "\<bar>tau'\<bar> < last time'"
  defines "shiftedTime \<equiv> map (\<lambda>t. t + tau') time'"
  shows "0 < tau' \<Longrightarrow>
           sync_error tau' signal1 signal2 time' =
             Inr (norm2 (map2 (-)
                    (map (interp1 time' signal1) (filter (\<lambda>s. s < last time') shiftedTime))
                    (take (length (filter (\<lambda>s. s < last time') shiftedTime)) signal2)))"
    and "\<not> 0 < tau' \<Longrightarrow>
           sync_error tau' signal1 signal2 time' =
             Inr (norm2 (map2 (-)
                    (map (interp1 time' signal1) (filter (\<lambda>s. s > hd time') shiftedTime))
                    (drop (length signal2 - length (filter (\<lambda>s. s > hd time') shiftedTime))
                       signal2)))"
proof -
  have sts: "sorted shiftedTime"
    using st unfolding shiftedTime_def
    by (simp add: sorted_wrt_iff_nth_less sorted_iff_nth_mono_less less_imp_le)
  have ls: "length shiftedTime = length time'" by (simp add: shiftedTime_def)
  have sne: "shiftedTime \<noteq> []" using ne by (simp add: shiftedTime_def)
  have guard: "\<not> \<bar>tau'\<bar> \<ge> last time'" using tau by simp
  have ip: "\<And>x. interp x time' signal1 = Inr (map (interp1 time' signal1) x)"
    using ne l1 by (simp add: interp_def)
  {
    assume pos: "0 < tau'"
    let ?int = "filter (\<lambda>s. s < last time') shiftedTime"
    have "hd shiftedTime = tau'" using ne h0 by (simp add: shiftedTime_def hd_map)
    moreover have "hd shiftedTime \<in> set shiftedTime" using sne by (rule hd_in_set)
    ultimately have "tau' \<in> set shiftedTime" by simp
    moreover have "tau' < last time'" using tau by simp
    ultimately have "tau' \<in> set ?int" by simp
    then have ine: "?int \<noteq> []" by (rule ne_set_nonempty)
    have s1: "take_indices shiftedTime (nonzero (map (\<lambda>s. s < last time') shiftedTime)) = Inr ?int"
      by (rule mask_select)
    have s2: "take_indices signal2 (nonzero (map (\<lambda>s. s \<le> last ?int) shiftedTime))
        = Inr (take (length ?int) signal2)"
      by (rule prefix_masks[OF sts _ ine]) (simp add: ls l2)
    have "length ?int \<le> length signal2"
      using length_filter_le[of "\<lambda>s. s < last time'" shiftedTime] by (simp add: ls l2)
    then have bl: "length (map (interp1 time' signal1) ?int) = length (take (length ?int) signal2)"
      by simp
    show "sync_error tau' signal1 signal2 time' =
             Inr (norm2 (map2 (-) (map (interp1 time' signal1) ?int)
                    (take (length ?int) signal2)))"
      unfolding sync_error_def Let_def shiftedTime_def[symmetric]
      using ne guard pos ine
      by (simp add: s1 s2 ip broadcast_same_length[OF bl] del: take_indices_def)
  }
  {
    assume npos: "\<not> 0 < tau'"
    let ?int = "filter (\<lambda>s. s > hd time') shiftedTime"
    have "last shiftedTime = last time' + tau'" using ne by (simp add: shiftedTime_def last_map)
    moreover have "last shiftedTime \<in> set shiftedTime" using sne by (rule last_in_set)
    ultimately have "last time' + tau' \<in> set shiftedTime" by simp
    moreover have "last time' + tau' > hd time'" using tau h0 by simp
    ultimately have "last time' + tau' \<in> set ?int" by simp
    then have ine: "?int \<noteq> []" by (rule ne_set_nonempty)
    have s1: "take_indices shiftedTime (nonzero (map (\<lambda>s. s > hd time') shiftedTime)) = Inr ?int"
      by (rule mask_select)
    have s2: "take_indices signal2 (nonzero (map (\<lambda>s. s \<ge> hd ?int) shiftedTime))
        = Inr (drop (length signal2 - length ?int) signal2)"
      by (rule suffix_masks[OF sts _ ine]) (simp add: ls l2)
    have "length ?int \<le> length signal2"
      using length_filter_le[of "\<lambda>s. s > hd time'" shiftedTime] by (simp add: ls l2)
    then have bl: "length (map (interp1 time' signal1) ?int)
        = length (drop (length signal2 - length ?int) signal2)"
      by simp
    show "sync_error tau' signal1 signal2 time' =
             Inr (norm2 (map2 (-) (map (interp1 time' signal1) ?int)
                    (drop (length signal2 - length ?int) signal2)))"
      unfolding sync_error_def Let_def shiftedTime_def[symmetric]
      using ne guard npos ine
      by (simp add: s1 s2 ip broadcast_same_length[OF bl] del: take_indices_def)
  }
qed


text \<open>
  For a time vector that starts at zero, \<open>sync_error\<close> raises \<open>ValueError\<close>
  exactly when \<open>|tau|\<close> is at least the last time, the duration, and otherwise
  returns the norm of the difference between the first signal interpolated at the
  shifted times of the overlap and the second signal on the overlap.
\<close>

theorem sync_error_zero_based:
  assumes st: "sorted_wrt (<) time'" and ne: "time' \<noteq> []" and h0: "hd time' = 0"
    and l1: "length signal1 = length time'" and l2: "length signal2 = length time'"
  shows "(sync_error tau' signal1 signal2 time' = Inl ValueError \<longleftrightarrow> \<bar>tau'\<bar> \<ge> last time')
       \<and> (\<bar>tau'\<bar> < last time' \<and> 0 < tau' \<longrightarrow>
            sync_error tau' signal1 signal2 time' =
              Inr (norm2 (map2 (-)
                (map (interp1 time' signal1)
                   (filter (\<lambda>s. s < last time') (map (\<lambda>t. t + tau') time')))
                (take (length (filter (\<lambda>s. s < last time') (map (\<lambda>t. t + tau') time')))
                   signal2))))
       \<and> (\<bar>tau'\<bar> < last time' \<and> \<not> 0 < tau' \<longrightarrow>
            sync_error tau' signal1 signal2 time' =
              Inr (norm2 (map2 (-)
                (map (interp1 time' signal1)
                   (filter (\<lambda>s. s > hd time') (map (\<lambda>t. t + tau') time')))
                (drop (length signal2
                       - length (filter (\<lambda>s. s > hd time') (map (\<lambda>t. t + tau') time')))
                   signal2))))"
proof (intro conjI impI)
  show "sync_error tau' signal1 signal2 time' = Inl ValueError \<longleftrightarrow> \<bar>tau'\<bar> \<ge> last time'"
  proof (cases "\<bar>tau'\<bar> \<ge> last time'")
    case True
    then show ?thesis using ne by (simp add: sync_error_def)
  next
    case False
    then have lt: "\<bar>tau'\<bar> < last time'" by simp
    show ?thesis
    proof (cases "0 < tau'")
      case True
      show ?thesis unfolding sync_error_value(1)[OF st ne h0 l1 l2 lt True] using False by simp
    next
      case F: False
      show ?thesis unfolding sync_error_value(2)[OF st ne h0 l1 l2 lt F] using False by simp
    qed
  qed
next
  assume "\<bar>tau'\<bar> < last time' \<and> 0 < tau'"
  then have lt: "\<bar>tau'\<bar> < last time'" and pos: "0 < tau'" by blast+
  show "sync_error tau' signal1 signal2 time' =
              Inr (norm2 (map2 (-)
                (map (interp1 time' signal1)
                   (filter (\<lambda>s. s < last time') (map (\<lambda>t. t + tau') time')))
                (take (length (filter (\<lambda>s. s < last time') (map (\<lambda>t. t + tau') time')))
                   signal2)))"
    by (rule sync_error_value(1)[OF st ne h0 l1 l2 lt pos])
next
  assume "\<bar>tau'\<bar> < last time' \<and> \<not> 0 < tau'"
  then have lt: "\<bar>tau'\<bar> < last time'" and npos: "\<not> 0 < tau'" by blast+
  show "sync_error tau' signal1 signal2 time' =
              Inr (norm2 (map2 (-)
                (map (interp1 time' signal1)
                   (filter (\<lambda>s. s > hd time') (map (\<lambda>t. t + tau') time')))
                (drop (length signal2
                       - length (filter (\<lambda>s. s > hd time') (map (\<lambda>t. t + tau') time')))
                   signal2)))"
    by (rule sync_error_value(2)[OF st ne h0 l1 l2 lt npos])
qed

text \<open>
  C8. The guard of \<open>sync_error\<close> compares \<open>|tau|\<close> with the last time, not with
  the duration. For the time vector \<open>[1, 2, 3]\<close> of duration 2 and \<open>tau = 2.5\<close> (or
  \<open>-2.5\<close>) the guard passes, the overlap is empty, and \<open>intervalTime[-1]\<close>
  (or \<open>intervalTime[0]\<close>) raises \<open>IndexError\<close>: neither the \<open>ValueError\<close> nor the
  norm the claim promises.
\<close>

theorem sync_error_empty_overlap:
  "\<bar>5 / 2 :: real\<bar> < last [1, 2, 3]
   \<and> sync_error (5 / 2) [0, 0, 0] [0, 0, 0] [1, 2, 3] = Inl IndexError
   \<and> sync_error (- 5 / 2) [0, 0, 0] [0, 0, 0] [1, 2, 3] = Inl IndexError"
  by (simp add: sync_error_def take_indices_def nonzero_def interp_def upt_conv_Cons)

subsection \<open>The time-shift check\<close>

lemma foldl_max: "foldl max (a :: real) xs = Max (set (a # xs))"
proof -
  have c: "(\<lambda>x s. max s x) = (max :: real \<Rightarrow> real \<Rightarrow> real)"
    by (intro ext) (rule max.commute)
  have "foldl max a xs = fold (\<lambda>x s. max s x) xs a" by (rule foldl_conv_fold)
  then show ?thesis unfolding c by (simp only: Max.set_eq_fold)
qed

lemma foldl_min: "foldl min (a :: real) xs = Min (set (a # xs))"
proof -
  have c: "(\<lambda>x s. min s x) = (min :: real \<Rightarrow> real \<Rightarrow> real)"
    by (intro ext) (rule min.commute)
  have "foldl min a xs = fold (\<lambda>x s. min s x) xs a" by (rule foldl_conv_fold)
  then show ?thesis unfolding c by (simp only: Min.set_eq_fold)
qed

lemma np_max_Max: "xs \<noteq> [] \<Longrightarrow> np_max xs = Max (set xs)"
  unfolding np_max_def foldl_max by (cases xs) simp_all

lemma np_min_Min: "xs \<noteq> [] \<Longrightarrow> np_min xs = Min (set xs)"
  unfolding np_min_def foldl_min by (cases xs) simp_all

lemma mean_square_sum:
  assumes "length vn = length ni"
  shows "np_mean (map (\<lambda>x. x ^ 2) (map2 (+) vn ni))
       = (\<Sum>i < length ni. (vn ! i + ni ! i) ^ 2) / real (length ni)"
proof -
  have "sum_list (map (\<lambda>x. x ^ 2) (map2 (+) vn ni))
      = (\<Sum>i = 0..<length ni. (map (\<lambda>x. x ^ 2) (map2 (+) vn ni)) ! i)"
    using assms by (simp add: sum_list_sum_nth)
  also have "\<dots> = (\<Sum>i = 0..<length ni. (vn ! i + ni ! i) ^ 2)"
    using assms by (intro sum.cong) auto
  finally show ?thesis using assms by (simp add: np_mean_def lessThan_atLeast0)
qed

text \<open>The comparison that \<open>check_time_shift\<close> makes, for signals of equal length.\<close>

lemma nrms_exceeds_formula:
  assumes len: "length vn = length ni" and ne: "ni \<noteq> []"
  shows "nrms_exceeds vn ni maxNRMS =
           Inr (if Max (set ni) - Min (set ni) = 0
                then sqrt ((\<Sum>i < length ni. (vn ! i + ni ! i) ^ 2) / real (length ni)) > 0
                else sqrt ((\<Sum>i < length ni. (vn ! i + ni ! i) ^ 2) / real (length ni))
                       / (Max (set ni) - Min (set ni)) > maxNRMS)"
proof -
  have b: "broadcast (+) vn ni = Inr (map2 (+) vn ni)" using len by (rule broadcast_same_length)
  have n: "map2 (+) vn ni \<noteq> []" using len ne by (cases vn; cases ni) auto
  show ?thesis
    unfolding nrms_exceeds_def b sum.case Let_def mean_square_sum[OF len]
      np_max_Max[OF ne] np_min_Min[OF ne]
    using ne n by simp
qed


lemma check_time_shift_values:
  assumes cs: "calibratedSignals self = Some cs"
    and ni: "lookup cs ''AccelerometerAccelerationY'' = Inr niAcc"
    and vn: "lookup cs ''AccelerationZ'' = Inr vnAcc"
    and tau: "tau self = Some tau'"
    and vnT: "Signal_truncate vnAcc tau' = Inr vnT"
    and niT: "Signal_truncate niAcc tau' = Inr niT"
  shows "check_time_shift ext self maxNRMS =
           (case nrms_exceeds (samples (spline ext vnT)) (samples (spline ext niT)) maxNRMS of
              Inl e \<Rightarrow> Inl e
            | Inr exceeds \<Rightarrow> if exceeds then Inl TimeShiftError else Inr self)"
  by (simp add: check_time_shift_def cs ni vn tau vnT niT)

lemma check_time_shift_returns_self:
  "check_time_shift ext self maxNRMS = Inr r \<Longrightarrow> r = self"
  unfolding check_time_shift_def
  by (simp split: option.splits sum.splits if_splits)

lemma example_sync_truncated:
  "Signal_truncate example_ni (1 / 2) = Inr (example_ni\<lparr>samples := [15, 25]\<rparr>)"
  "Signal_truncate example_vn_acc (1 / 2) = Inr (example_vn_acc\<lparr>samples := [- 12, - 22]\<rparr>)"
proof -
  have t: "time example_vn_acc = [0, 1, 2]"
    by (simp add: time_def time_vector_def example_vn_acc_def example_vn_def upt_conv_Cons)
  have a: "0 < sampleRate example_ni" "samples example_ni \<noteq> []"
    "(1 / 2 :: real) < last (time example_ni)" "source example_ni = Some ''NI''"
    by (simp_all add: example_times) (simp_all add: example_ni_def)
  have b: "0 < sampleRate example_vn_acc" "samples example_vn_acc \<noteq> []"
    "(1 / 2 :: real) < last (time example_vn_acc)" "source example_vn_acc = Some ''VN''"
    by (simp_all add: t) (simp_all add: example_vn_acc_def example_vn_def)
  have "truncate_data example_ni (1 / 2) =
          Inr (example_ni\<lparr>samples := map (interp1 (map (\<lambda>x. x - 1 / 2) (time example_ni))
                 (samples example_ni)) (filter (\<lambda>x. x < last (time example_ni) - 1 / 2) (time example_ni))\<rparr>)"
    using truncate_data_overlap(2)[OF a(1) a(2) a(3) a(4)] .
  then have "truncate_data example_ni (1 / 2) = Inr (example_ni\<lparr>samples := [15, 25]\<rparr>)"
    by (simp add: example_times) (simp add: example_ni_def)
  then show "Signal_truncate example_ni (1 / 2) = Inr (example_ni\<lparr>samples := [15, 25]\<rparr>)"
    by (simp add: Signal_truncate_def Signal_as_dictionary)
  have "truncate_data example_vn_acc (1 / 2) =
          Inr (example_vn_acc\<lparr>samples := take (length (filter (\<lambda>x. x < last (time example_vn_acc) - 1 / 2)
                 (time example_vn_acc))) (samples example_vn_acc)\<rparr>)"
    using truncate_data_overlap(3)[OF b(1) b(2) b(3) b(4)] .
  then have "truncate_data example_vn_acc (1 / 2) = Inr (example_vn_acc\<lparr>samples := [- 12, - 22]\<rparr>)"
    by (simp add: t) (simp add: example_vn_acc_def example_vn_def)
  then show "Signal_truncate example_vn_acc (1 / 2) = Inr (example_vn_acc\<lparr>samples := [- 12, - 22]\<rparr>)"
    by (simp add: Signal_truncate_def Signal_as_dictionary)
qed

lemma example_sync_lookups:
  "calibratedSignals example_sync_run =
     Some [(Some ''AccelerometerAccelerationY'', example_ni), (Some ''AccelerationZ'', example_vn_acc)]"
  "lookup [(Some ''AccelerometerAccelerationY'', example_ni), (Some ''AccelerationZ'', example_vn_acc)]
     ''AccelerometerAccelerationY'' = Inr example_ni"
  "lookup [(Some ''AccelerometerAccelerationY'', example_ni), (Some ''AccelerationZ'', example_vn_acc)]
     ''AccelerationZ'' = Inr example_vn_acc"
  "tau example_sync_run = Some (1 / 2)"
  by (simp_all add: example_sync_run_def lookup_def)

lemma example_sync_splined:
  "samples (spline identity_routines (example_vn_acc\<lparr>samples := [- 12, - 22]\<rparr>)) = [- 12, - 22]"
  "samples (spline identity_routines (example_ni\<lparr>samples := [15, 25]\<rparr>)) = [15, 25]"
  by (simp_all add: spline_def identity_routines_def Signal_def)

text \<open>
  C4. \<open>Run.check_time_shift\<close>. Take a run whose calibrated signals hold both
  accelerometer signals, whose time shift is set, and whose two truncations succeed with
  splined samples \<open>vn\<close> and \<open>ni\<close> of one length, not empty. The root mean square is
  taken of the sum \<open>vn + ni\<close>, and is divided by the range of \<open>ni\<close> alone. The call
  raises \<open>TimeShiftError\<close> when that quotient is greater than \<open>maxNRMS\<close> and returns
  the unchanged run otherwise. A constant \<open>ni\<close> makes the division one by zero, which
  numpy answers with infinity for a positive root mean square (the call raises) and
  with not-a-number for a zero one (it does not). Whenever the call returns at all, the
  run it returns is the one it was given.
\<close>

theorem check_time_shift_nrms:
  "(\<forall>cs niAcc vnAcc tau' vnT niT vn ni.
      calibratedSignals self = Some cs
      \<and> lookup cs ''AccelerometerAccelerationY'' = Inr niAcc
      \<and> lookup cs ''AccelerationZ'' = Inr vnAcc
      \<and> tau self = Some tau'
      \<and> Signal_truncate vnAcc tau' = Inr vnT
      \<and> Signal_truncate niAcc tau' = Inr niT
      \<and> vn = samples (spline ext vnT) \<and> ni = samples (spline ext niT)
      \<and> length vn = length ni \<and> ni \<noteq> [] \<longrightarrow>
      check_time_shift ext self maxNRMS =
        (let rms = sqrt ((\<Sum>i < length ni. (vn ! i + ni ! i) ^ 2) / real (length ni));
             rng = Max (set ni) - Min (set ni)
         in if (if rng = 0 then rms > 0 else rms / rng > maxNRMS)
            then Inl TimeShiftError else Inr self))
   \<and> (\<forall>r. check_time_shift ext self maxNRMS = Inr r \<longrightarrow> r = self)"
proof (intro conjI allI impI)
  fix cs niAcc vnAcc tau' vnT niT and vn ni :: "real list"
  assume h: "calibratedSignals self = Some cs
      \<and> lookup cs ''AccelerometerAccelerationY'' = Inr niAcc
      \<and> lookup cs ''AccelerationZ'' = Inr vnAcc
      \<and> tau self = Some tau'
      \<and> Signal_truncate vnAcc tau' = Inr vnT
      \<and> Signal_truncate niAcc tau' = Inr niT
      \<and> vn = samples (spline ext vnT) \<and> ni = samples (spline ext niT)
      \<and> length vn = length ni \<and> ni \<noteq> []"
  then have len: "length vn = length ni" and ne: "ni \<noteq> []"
    and vn: "samples (spline ext vnT) = vn" and ni: "samples (spline ext niT) = ni"
    by blast+
  from h have v: "check_time_shift ext self maxNRMS =
           (case nrms_exceeds (samples (spline ext vnT)) (samples (spline ext niT)) maxNRMS of
              Inl e \<Rightarrow> Inl e
            | Inr exceeds \<Rightarrow> if exceeds then Inl TimeShiftError else Inr self)"
    by (intro check_time_shift_values) blast+
  show "check_time_shift ext self maxNRMS =
        (let rms = sqrt ((\<Sum>i < length ni. (vn ! i + ni ! i) ^ 2) / real (length ni));
             rng = Max (set ni) - Min (set ni)
         in if (if rng = 0 then rms > 0 else rms / rng > maxNRMS)
            then Inl TimeShiftError else Inr self)"
    unfolding v vn ni nrms_exceeds_formula[OF len ne] by (simp add: Let_def)
next
  fix r
  assume "check_time_shift ext self maxNRMS = Inr r"
  then show "r = self" by (rule check_time_shift_returns_self)
qed

theorem check_time_shift_nrms_witness:
  "calibratedSignals example_sync_run =
     Some [(Some ''AccelerometerAccelerationY'', example_ni), (Some ''AccelerationZ'', example_vn_acc)]
   \<and> tau example_sync_run = Some (1 / 2)
   \<and> Signal_truncate example_vn_acc (1 / 2) = Inr (example_vn_acc\<lparr>samples := [- 12, - 22]\<rparr>)
   \<and> Signal_truncate example_ni (1 / 2) = Inr (example_ni\<lparr>samples := [15, 25]\<rparr>)
   \<and> check_time_shift identity_routines example_sync_run (15 / 100) = Inl TimeShiftError
   \<and> check_time_shift identity_routines example_sync_run (1 / 2) = Inr example_sync_run"
proof -
  let ?cs = "[(Some ''AccelerometerAccelerationY'', example_ni), (Some ''AccelerationZ'', example_vn_acc)]"
  let ?vnT = "example_vn_acc\<lparr>samples := [- 12, - 22]\<rparr>"
  let ?niT = "example_ni\<lparr>samples := [15, 25]\<rparr>"
  have h: "calibratedSignals example_sync_run = Some ?cs
      \<and> lookup ?cs ''AccelerometerAccelerationY'' = Inr example_ni
      \<and> lookup ?cs ''AccelerationZ'' = Inr example_vn_acc
      \<and> tau example_sync_run = Some (1 / 2)
      \<and> Signal_truncate example_vn_acc (1 / 2) = Inr ?vnT
      \<and> Signal_truncate example_ni (1 / 2) = Inr ?niT
      \<and> [- 12, - 22] = samples (spline identity_routines ?vnT)
      \<and> [15, 25] = samples (spline identity_routines ?niT)
      \<and> length [- 12 :: real, - 22] = length [15 :: real, 25] \<and> [15 :: real, 25] \<noteq> []"
    unfolding example_sync_splined
    using example_sync_lookups example_sync_truncated by simp
  have s: "(\<Sum>i < length [15 :: real, 25]. ([- 12, - 22] ! i + [15, 25] ! i) ^ 2)
             / real (length [15 :: real, 25]) = 3 ^ 2"
    by (simp add: lessThan_Suc eval_nat_numeral)
  have r: "Max (set [15 :: real, 25]) - Min (set [15 :: real, 25]) = 10" by simp
  have a: "check_time_shift identity_routines example_sync_run (15 / 100) = Inl TimeShiftError"
    using check_time_shift_nrms[of example_sync_run identity_routines "15 / 100",
        THEN conjunct1, THEN spec, THEN spec, THEN spec, THEN spec, THEN spec, THEN spec,
        THEN spec, THEN spec, THEN mp, OF h]
    unfolding s r Let_def real_sqrt_abs by simp
  have b: "check_time_shift identity_routines example_sync_run (1 / 2) = Inr example_sync_run"
    using check_time_shift_nrms[of example_sync_run identity_routines "1 / 2",
        THEN conjunct1, THEN spec, THEN spec, THEN spec, THEN spec, THEN spec, THEN spec,
        THEN spec, THEN spec, THEN mp, OF h]
    unfolding s r Let_def real_sqrt_abs by simp
  from h a b show ?thesis by blast
qed

subsection \<open>The time shift\<close>

lemma length_tauRange: "length tauRange = 500"
  by (simp add: tauRange_def)

lemma nth_tauRange: "i < 500 \<Longrightarrow> tauRange ! i = real i * (1 / 2) / 499"
  by (simp add: tauRange_def)

lemma tauRange_bounds:
  assumes "i < 500"
  shows "0 \<le> tauRange ! i" and "tauRange ! i \<le> 1 / 2"
proof -
  have "real i \<le> 499" using assms by simp
  then show "0 \<le> tauRange ! i" and "tauRange ! i \<le> 1 / 2"
    unfolding nth_tauRange[OF assms] by simp_all
qed

text \<open>The error landscape holds the value of \<open>sync_error\<close> at every candidate.\<close>

lemma landscape_values:
  "landscape taus ni vn t = Inr errs \<Longrightarrow>
     length errs = length taus \<and> (\<forall>i < length taus. sync_error (taus ! i) ni vn t = Inr (errs ! i))"
proof (induction taus arbitrary: errs)
  case Nil
  then show ?case by simp
next
  case (Cons val vals)
  from Cons.prems obtain err rest where
    e: "sync_error val ni vn t = Inr err" and r: "landscape vals ni vn t = Inr rest"
    and errs: "errs = err # rest"
    by (auto split: sum.splits)
  from Cons.IH[OF r] have l: "length rest = length vals"
    and v: "\<And>i. i < length vals \<Longrightarrow> sync_error (vals ! i) ni vn t = Inr (rest ! i)"
    by simp_all
  show ?case
  proof (intro conjI allI impI)
    show "length errs = length (val # vals)" using l errs by simp
    fix i assume "i < length (val # vals)"
    then show "sync_error ((val # vals) ! i) ni vn t = Inr (errs ! i)"
      using e v errs by (cases i) simp_all
  qed
qed

text \<open>\<open>argmin_from\<close> keeps the first position of the least entry seen so far.\<close>

lemma argmin_from_least:
  assumes "best < i" and "i \<le> length ys" and "drop i ys = xs" and "least = ys ! best"
    and "\<forall>j < i. ys ! best \<le> ys ! j" and "\<forall>j < best. ys ! best < ys ! j"
  shows "argmin_from xs i best least < length ys
       \<and> (\<forall>j < length ys. ys ! argmin_from xs i best least \<le> ys ! j)
       \<and> (\<forall>j < argmin_from xs i best least. ys ! argmin_from xs i best least < ys ! j)"
  using assms
proof (induction xs arbitrary: i best least)
  case Nil
  then have "i = length ys" by simp
  with Nil show ?case by simp
next
  case (Cons x xs)
  have il: "i < length ys" using Cons.prems(2,3) by (cases "i = length ys") simp_all
  have x: "ys ! i = x" and d: "drop (Suc i) ys = xs"
    using Cons.prems(3) il by (simp_all add: Cons_nth_drop_Suc[symmetric])
  show ?case
  proof (cases "x < least")
    case True
    have a: "\<forall>j < Suc i. ys ! i \<le> ys ! j"
    proof (intro allI impI)
      fix j assume "j < Suc i"
      then consider "j = i" | "j < i" by linarith
      then show "ys ! i \<le> ys ! j"
      proof cases
        case 1 then show ?thesis by simp
      next
        case 2
        then have "ys ! best \<le> ys ! j" using Cons.prems(5) by simp
        then show ?thesis using True x Cons.prems(4) by simp
      qed
    qed
    have b: "\<forall>j < i. ys ! i < ys ! j"
    proof (intro allI impI)
      fix j assume "j < i"
      then have "ys ! best \<le> ys ! j" using Cons.prems(5) by simp
      then show "ys ! i < ys ! j" using True x Cons.prems(4) by simp
    qed
    have "i < Suc i" by simp
    from Cons.IH[OF this _ d _ a b] il x True show ?thesis by simp
  next
    case False
    have a: "\<forall>j < Suc i. ys ! best \<le> ys ! j"
    proof (intro allI impI)
      fix j assume "j < Suc i"
      then consider "j = i" | "j < i" by linarith
      then show "ys ! best \<le> ys ! j"
      proof cases
        case 1 then show ?thesis using False x Cons.prems(4) by simp
      next
        case 2 then show ?thesis using Cons.prems(5) by simp
      qed
    qed
    have "best < Suc i" using Cons.prems(1) by simp
    from Cons.IH[OF this _ d Cons.prems(4) a Cons.prems(6)] il False show ?thesis by simp
  qed
qed

lemma argmin_least:
  assumes "xs \<noteq> []"
  shows "argmin xs < length xs \<and> (\<forall>j < length xs. xs ! argmin xs \<le> xs ! j)
       \<and> (\<forall>j < argmin xs. xs ! argmin xs < xs ! j)"
proof -
  have "(0 :: nat) < 1" by simp
  moreover have "1 \<le> length xs" using assms by (cases xs) simp_all
  moreover have "drop 1 xs = tl xs" by (simp add: drop_Suc)
  moreover have "hd xs = xs ! 0" using assms by (simp add: hd_conv_nth)
  moreover have "\<forall>j < 1. xs ! 0 \<le> xs ! j" by simp
  moreover have "\<forall>j < 0. xs ! 0 < xs ! j" by simp
  ultimately show ?thesis unfolding argmin_def by (rule argmin_from_least)
qed


lemma seed_cases:
  "seed guess error' =
     (if 0 < guess \<and> guess < 1
         \<and> \<not> (guess - 1 / 10 < tauRange ! argmin error' \<and> tauRange ! argmin error' < guess + 1 / 10)
      then guess else tauRange ! argmin error')"
  by (simp add: seed_def Let_def)

lemma find_timeshift_returns:
  assumes "find_timeshift fmin guess ni vn t = Inr tau''"
  shows "\<exists>error' r. 200 \<le> length ni \<and> landscape tauRange ni vn t = Inr error'
           \<and> fmin (\<lambda>x. sync_error x ni vn t) (seed guess error') = Inr r
           \<and> tau'' = (if \<bar>r - seed guess error'\<bar> > 1 / 100 then seed guess error' else r)"
  using assms unfolding find_timeshift_def Let_def
  by (auto split: if_splits sum.splits)

lemma find_timeshift_value:
  assumes "200 \<le> length ni" and "landscape tauRange ni vn t = Inr error'"
    and "fmin (\<lambda>x. sync_error x ni vn t) (seed guess error') = Inr r"
  shows "find_timeshift fmin guess ni vn t =
           Inr (if \<bar>r - seed guess error'\<bar> > 1 / 100 then seed guess error' else r)"
  using assms unfolding find_timeshift_def Let_def by simp

lemma landscape_seed:
  assumes l: "landscape tauRange ni vn t = Inr error'"
  shows "length error' = 500
         \<and> (\<forall>i < 500. sync_error (tauRange ! i) ni vn t = Inr (error' ! i))
         \<and> argmin error' < 500
         \<and> tauRange ! argmin error' = real (argmin error') * (1 / 2) / 499
         \<and> 0 \<le> tauRange ! argmin error' \<and> tauRange ! argmin error' \<le> 1 / 2
         \<and> (\<forall>j < 500. error' ! argmin error' \<le> error' ! j)
         \<and> (\<forall>j < argmin error'. error' ! argmin error' < error' ! j)
         \<and> seed guess error' =
             (if 0 < guess \<and> guess < 1
                 \<and> \<not> (guess - 1 / 10 < tauRange ! argmin error'
                       \<and> tauRange ! argmin error' < guess + 1 / 10)
              then guess else tauRange ! argmin error')"
proof (intro conjI)
  from landscape_values[OF l] show len: "length error' = 500"
    and "\<forall>i < 500. sync_error (tauRange ! i) ni vn t = Inr (error' ! i)"
    by (simp_all add: length_tauRange)
  from len have "error' \<noteq> []" by auto
  from argmin_least[OF this] show k: "argmin error' < 500"
    and "\<forall>j < 500. error' ! argmin error' \<le> error' ! j"
    and "\<forall>j < argmin error'. error' ! argmin error' < error' ! j"
    unfolding len by blast+
  show "tauRange ! argmin error' = real (argmin error') * (1 / 2) / 499"
    using k by (rule nth_tauRange)
  show "0 \<le> tauRange ! argmin error'" "tauRange ! argmin error' \<le> 1 / 2"
    using k by (rule tauRange_bounds)+
  show "seed guess error' =
             (if 0 < guess \<and> guess < 1
                 \<and> \<not> (guess - 1 / 10 < tauRange ! argmin error'
                       \<and> tauRange ! argmin error' < guess + 1 / 10)
              then guess else tauRange ! argmin error')"
    by (rule seed_cases)
qed

text \<open>
  C2. \<open>find_timeshift\<close> from the error landscape on. The minimiser is any routine
  that gets the error function and the seed, and numbers are real. When the function
  returns, the landscape was filled without an exception, the minimiser returned some
  \<open>r\<close> from the seed, the result is the seed if \<open>r\<close> is more than 0.01 away from the
  seed and \<open>r\<close> otherwise, and so the result is within 0.01 of the seed. Conversely a
  bump section of at least 200 samples, a landscape filled without an exception and
  a minimiser that returns make the function return. The landscape has the value of
  \<open>sync_error\<close> at each of the 500 candidates \<open>k * 0.5 / 499\<close>, which lie in
  \<open>[0, 0.5]\<close>; the seed is the candidate at the first position of the least error,
  unless the guess lies strictly between 0 and 1 and that candidate is not strictly
  between \<open>guess - 0.1\<close> and \<open>guess + 0.1\<close>: then the seed is the guess.
\<close>

theorem find_timeshift_within_seed:
  "(\<forall>tau''. find_timeshift fmin guess ni vn t = Inr tau'' \<longrightarrow>
      (\<exists>error' r. landscape tauRange ni vn t = Inr error'
         \<and> fmin (\<lambda>x. sync_error x ni vn t) (seed guess error') = Inr r
         \<and> tau'' = (if \<bar>r - seed guess error'\<bar> > 1 / 100 then seed guess error' else r)
         \<and> \<bar>tau'' - seed guess error'\<bar> \<le> 1 / 100))
   \<and> (\<forall>error' r. 200 \<le> length ni \<and> landscape tauRange ni vn t = Inr error'
         \<and> fmin (\<lambda>x. sync_error x ni vn t) (seed guess error') = Inr r \<longrightarrow>
         find_timeshift fmin guess ni vn t =
           Inr (if \<bar>r - seed guess error'\<bar> > 1 / 100 then seed guess error' else r))
   \<and> (\<forall>error'. landscape tauRange ni vn t = Inr error' \<longrightarrow>
         length error' = 500
         \<and> (\<forall>i < 500. sync_error (tauRange ! i) ni vn t = Inr (error' ! i))
         \<and> argmin error' < 500
         \<and> tauRange ! argmin error' = real (argmin error') * (1 / 2) / 499
         \<and> 0 \<le> tauRange ! argmin error' \<and> tauRange ! argmin error' \<le> 1 / 2
         \<and> (\<forall>j < 500. error' ! argmin error' \<le> error' ! j)
         \<and> (\<forall>j < argmin error'. error' ! argmin error' < error' ! j)
         \<and> seed guess error' =
             (if 0 < guess \<and> guess < 1
                 \<and> \<not> (guess - 1 / 10 < tauRange ! argmin error'
                       \<and> tauRange ! argmin error' < guess + 1 / 10)
              then guess else tauRange ! argmin error'))"
proof (rule conjI[OF _ conjI]; intro allI impI)
  fix tau''
  assume "find_timeshift fmin guess ni vn t = Inr tau''"
  from find_timeshift_returns[OF this] obtain error' r where
    l: "landscape tauRange ni vn t = Inr error'"
    and f: "fmin (\<lambda>x. sync_error x ni vn t) (seed guess error') = Inr r"
    and v: "tau'' = (if \<bar>r - seed guess error'\<bar> > 1 / 100 then seed guess error' else r)"
    by blast
  from v have "\<bar>tau'' - seed guess error'\<bar> \<le> 1 / 100"
    by (cases "\<bar>r - seed guess error'\<bar> > 1 / 100") simp_all
  with l f v show "\<exists>error' r. landscape tauRange ni vn t = Inr error'
         \<and> fmin (\<lambda>x. sync_error x ni vn t) (seed guess error') = Inr r
         \<and> tau'' = (if \<bar>r - seed guess error'\<bar> > 1 / 100 then seed guess error' else r)
         \<and> \<bar>tau'' - seed guess error'\<bar> \<le> 1 / 100"
    by blast
next
  fix error' r
  assume "200 \<le> length ni \<and> landscape tauRange ni vn t = Inr error'
         \<and> fmin (\<lambda>x. sync_error x ni vn t) (seed guess error') = Inr r"
  then show "find_timeshift fmin guess ni vn t =
           Inr (if \<bar>r - seed guess error'\<bar> > 1 / 100 then seed guess error' else r)"
    by (intro find_timeshift_value) blast+
next
  fix error'
  assume "landscape tauRange ni vn t = Inr error'"
  then show "length error' = 500
         \<and> (\<forall>i < 500. sync_error (tauRange ! i) ni vn t = Inr (error' ! i))
         \<and> argmin error' < 500
         \<and> tauRange ! argmin error' = real (argmin error') * (1 / 2) / 499
         \<and> 0 \<le> tauRange ! argmin error' \<and> tauRange ! argmin error' \<le> 1 / 2
         \<and> (\<forall>j < 500. error' ! argmin error' \<le> error' ! j)
         \<and> (\<forall>j < argmin error'. error' ! argmin error' < error' ! j)
         \<and> seed guess error' =
             (if 0 < guess \<and> guess < 1
                 \<and> \<not> (guess - 1 / 10 < tauRange ! argmin error'
                       \<and> tauRange ! argmin error' < guess + 1 / 10)
              then guess else tauRange ! argmin error')"
    by (rule landscape_seed)
qed


lemma interp_from_zero: "interp_from x0 0 xs (replicate k 0) x = 0"
proof (induction xs arbitrary: x0 k)
  case Nil
  then show ?case by simp
next
  case (Cons x1 xs)
  then show ?case by (cases k) simp_all
qed

lemma interp1_zero: "interp1 xs (replicate k 0) x = 0"
  by (cases xs; cases k) (simp_all add: interp_from_zero)

lemma norm2_zeros: "set d \<subseteq> {0} \<Longrightarrow> norm2 d = 0"
proof -
  assume a: "set d \<subseteq> {0}"
  then have "sum_list (map (\<lambda>x. x ^ 2) d) = 0" by (induction d) simp_all
  then show ?thesis by (simp add: norm2_def)
qed

lemma difference_zeros:
  assumes "\<And>x. f x = (0 :: real)" and "set ys \<subseteq> {0}"
  shows "set (map2 (-) (map f xs) ys) \<subseteq> {0}"
proof
  fix z assume "z \<in> set (map2 (-) (map f xs) ys)"
  then obtain a b where ab: "(a, b) \<in> set (zip (map f xs) ys)" and z: "z = a - b" by auto
  from ab have "a \<in> set (map f xs)" and "b \<in> set ys"
    by (rule set_zip_leftD, rule set_zip_rightD)
  then have "a = 0" and "b = 0" using assms by auto
  then show "z \<in> {0}" using z by simp
qed

lemma sync_error_zeros:
  assumes st: "sorted_wrt (<) time'" and ne: "time' \<noteq> []" and h0: "hd time' = 0"
    and tau: "\<bar>tau'\<bar> < last time'"
  shows "sync_error tau' (replicate (length time') 0) (replicate (length time') 0) time' = Inr 0"
proof -
  let ?z = "replicate (length time') (0 :: real)"
  have l: "length ?z = length time'" by simp
  have t: "\<And>m. set (take m ?z) \<subseteq> {0}" and d: "\<And>m. set (drop m ?z) \<subseteq> {0}"
    by (auto dest: in_set_takeD in_set_dropD)
  show ?thesis
  proof (cases "0 < tau'")
    case True
    show ?thesis
      unfolding sync_error_value(1)[OF st ne h0 l l tau True]
      by (simp only: sum.inject norm2_zeros[OF difference_zeros[OF interp1_zero t]])
  next
    case False
    show ?thesis
      unfolding sync_error_value(2)[OF st ne h0 l l tau False]
      by (simp only: sum.inject norm2_zeros[OF difference_zeros[OF interp1_zero d]])
  qed
qed

lemma landscape_zeros:
  "(\<And>tau'. tau' \<in> set taus \<Longrightarrow> sync_error tau' ni vn t = Inr 0) \<Longrightarrow>
     landscape taus ni vn t = Inr (replicate (length taus) 0)"
  by (induction taus) simp_all

lemma argmin_zeros: "0 < n \<Longrightarrow> argmin (replicate n 0) = 0"
proof -
  assume n: "0 < n"
  let ?xs = "replicate n (0 :: real)"
  have "?xs \<noteq> []" using n by simp
  from argmin_least[OF this]
  have k: "argmin ?xs < length ?xs" and f: "\<forall>j < argmin ?xs. ?xs ! argmin ?xs < ?xs ! j"
    by blast+
  show ?thesis
  proof (rule ccontr)
    assume "argmin ?xs \<noteq> 0"
    then have "0 < argmin ?xs" by simp
    with f have "?xs ! argmin ?xs < ?xs ! 0" by blast
    moreover have "?xs ! argmin ?xs = 0" using k by simp
    moreover have "?xs ! 0 = 0" using n by simp
    ultimately show False by simp
  qed
qed

lemma example_landscape:
  "landscape tauRange example_bump example_bump example_bump_time = Inr (replicate 500 0)"
proof -
  have st: "sorted_wrt (<) example_bump_time"
    unfolding example_bump_time_def by (rule sorted_time_vector) simp
  have ne: "example_bump_time \<noteq> []" by (simp add: example_bump_time_def time_vector_Nil)
  have h0: "hd example_bump_time = 0"
    unfolding example_bump_time_def by (rule hd_time_vector) simp
  have la: "last example_bump_time = 199 / 200"
    unfolding example_bump_time_def by (simp add: last_time_vector)
  have b: "example_bump = replicate (length example_bump_time) 0"
    by (simp add: example_bump_def example_bump_time_def length_time_vector)
  have "landscape tauRange example_bump example_bump example_bump_time
          = Inr (replicate (length tauRange) 0)"
  proof (rule landscape_zeros)
    fix tau' assume "tau' \<in> set tauRange"
    then obtain i where i: "i < 500" and t: "tau' = tauRange ! i"
      by (auto simp: in_set_conv_nth length_tauRange)
    from tauRange_bounds[OF i] have "\<bar>tau'\<bar> < last example_bump_time"
      unfolding la t by simp
    from sync_error_zeros[OF st ne h0 this]
    show "sync_error tau' example_bump example_bump example_bump_time = Inr 0"
      unfolding b[symmetric] .
  qed
  then show ?thesis by (simp only: length_tauRange)
qed

lemma example_seeds:
  "seed (3 / 10) (replicate 500 0) = 3 / 10" "seed 2 (replicate 500 0) = 0"
proof -
  have "tauRange ! argmin (replicate 500 0) = 0" by (simp add: argmin_zeros nth_tauRange)
  then show "seed (3 / 10) (replicate 500 0) = 3 / 10" "seed 2 (replicate 500 0) = 0"
    by (simp_all add: seed_cases)
qed

theorem find_timeshift_within_seed_witness:
  "200 \<le> length example_bump
   \<and> landscape tauRange example_bump example_bump example_bump_time = Inr (replicate 500 0)
   \<and> seed (3 / 10) (replicate 500 0) = 3 / 10
   \<and> seed 2 (replicate 500 0) = 0
   \<and> find_timeshift (example_fmin (1 / 200)) (3 / 10) example_bump example_bump example_bump_time
       = Inr (61 / 200)
   \<and> find_timeshift (example_fmin 1) (3 / 10) example_bump example_bump example_bump_time
       = Inr (3 / 10)
   \<and> find_timeshift (example_fmin 1) 2 example_bump example_bump example_bump_time = Inr 0"
proof -
  have n: "200 \<le> length example_bump" by (simp add: example_bump_def)
  note l = example_landscape
  have a: "find_timeshift (example_fmin (1 / 200)) (3 / 10) example_bump example_bump
             example_bump_time = Inr (61 / 200)"
    using find_timeshift_within_seed[of "example_fmin (1 / 200)" "3 / 10" example_bump
        example_bump example_bump_time, THEN conjunct2, THEN conjunct1, THEN spec, THEN spec,
        of "replicate 500 0" "3 / 10 + 1 / 200"] n l
    by (simp add: example_seeds example_fmin_def)
  have b: "find_timeshift (example_fmin 1) (3 / 10) example_bump example_bump
             example_bump_time = Inr (3 / 10)"
    using find_timeshift_within_seed[of "example_fmin 1" "3 / 10" example_bump
        example_bump example_bump_time, THEN conjunct2, THEN conjunct1, THEN spec, THEN spec,
        of "replicate 500 0" "3 / 10 + 1"] n l
    by (simp add: example_seeds example_fmin_def)
  have c: "find_timeshift (example_fmin 1) 2 example_bump example_bump
             example_bump_time = Inr 0"
    using find_timeshift_within_seed[of "example_fmin 1" 2 example_bump
        example_bump example_bump_time, THEN conjunct2, THEN conjunct1, THEN spec, THEN spec,
        of "replicate 500 0" 1] n l
    by (simp add: example_seeds example_fmin_def)
  from n l a b c example_seeds show ?thesis by blast
qed

end
